theory Spec2Isabelle
  imports Main "HOL-Library.Word"
begin

section \<open>The gRPC server transport handler of kitex (pkg/remote/trans/nphttp2/server_handler.go)\<close>

text \<open>
  The handler bridges a stream-multiplexing transport and the business endpoint. Every
  collaborator it calls (metadata handlers, tracer controller, logger, transport, rpcinfo
  setters, the endpoint) is outside the file, so the embedding records each call the handler
  makes as an event, in program order, and passes the invocation record along as state.
  Contexts (\<open>'c\<close>), errors (\<open>'e\<close>) and panic payloads (\<open>'p\<close>) stay abstract.
\<close>

subsection \<open>Data of the collaborating packages\<close>

text \<open>Status codes named by the handler (\<open>codes.OK\<close>, \<open>codes.ResourceExhausted\<close>); every other
  code of the vocabulary is an \<open>OtherCode\<close>.\<close>

datatype codes = OK | ResourceExhausted | OtherCode nat

text \<open>\<open>status.New(c, msg)\<close>: a status is a code and a message.\<close>

datatype status = New (Code: codes) (Message: string)

datatype Protocol = GRPC | NonGRPC

text \<open>The invocation part of an \<open>rpcinfo.RPCInfo\<close>, with the three names the handler sets.\<close>

record Invocation =
  PackageName :: string
  ServiceName :: string
  MethodName :: string

text \<open>What the handler reads of an \<open>RPCInfo\<close>: its invocation, and whether
  \<open>rpcinfo.AsMutableRPCStats(ri.Stats())\<close> is non-nil.\<close>

record RPCInfo =
  invocation :: Invocation
  MutableStats :: bool

text \<open>A \<open>net.Conn\<close> value: a netpoll connection (with the read timeout it carries, a
  \<open>time.Duration\<close>, that is an int64) or a connection of another implementation. A nil
  interface value is \<open>None\<close> of \<open>Conn option\<close>.\<close>

datatype Conn =
    NetpollConn (RemoteAddr: string) (ReadTimeout: "64 word")
  | OtherConn (RemoteAddr: string)

record 'c Stream =
  Method :: string
  Context :: 'c

text \<open>The result of the injected endpoint: it returns (nil or an error) or it panics with
  a payload, the value \<open>recover()\<close> yields.\<close>

datatype ('e, 'p) outcome = Return "'e option" | Panic 'p

text \<open>\<open>remote.ServerOption\<close>, as far as the handler uses it. \<open>TracerCtl\<close> is the context
  transformation of \<open>TracerCtl.DoStart\<close>.\<close>

record ('c, 'e) ServerOption =
  InitRPCInfoFunc :: "'c \<Rightarrow> string \<Rightarrow> RPCInfo \<times> 'c"
  StreamingMetaHandlers :: "('c \<Rightarrow> 'c \<times> 'e option) list"
  TracerCtl :: "'c \<Rightarrow> 'c"

record ('c, 'e, 'p) svrTransHandler =
  opt :: "('c, 'e) ServerOption"
  inkHdlFunc :: "'c \<Rightarrow> Invocation \<Rightarrow> ('e, 'p) outcome"

text \<open>What the Go runtime and standard library supply: the \<open>%q\<close> verb of \<open>fmt.Sprintf\<close>,
  the text of \<open>debug.Stack()\<close>, \<open>err.Error()\<close>, the status code an error is mapped to,
  and the payload of a slice-bounds panic.\<close>

record ('e, 'p) Runtime =
  Sprintf_q :: "string \<Rightarrow> string"
  Stack :: string
  ErrorText :: "'e \<Rightarrow> string"
  ErrorCode :: "'e \<Rightarrow> codes"
  BoundsError :: 'p

subsection \<open>Events and call state\<close>

datatype 'p logarg = Addr string | Payload 'p | Text string

text \<open>One constructor for each call the handler makes to a collaborator.\<close>

datatype ('c, 'e, 'p) event =
    SetTransportProtocol Protocol
  | OnReadStream nat 'c
  | WriteStatus status
  | DoStart 'c
  | SetMethodName string
  | SetPackageName string
  | SetServiceName string
  | Invoke 'c
  | Errorf string "'p logarg list"
  | SetPanicked 'p
  | DoFinish 'c "'e option"
  | Reset

record ('c, 'e, 'p) call =
  ink :: Invocation
  trace :: "('c, 'e, 'p) event list"

definition emit :: "('c, 'e, 'p) event \<Rightarrow> ('c, 'e, 'p) call \<Rightarrow> ('c, 'e, 'p) call" where
  "emit e st = st\<lparr>trace := trace st @ [e]\<rparr>"

text \<open>Modelled from the spec: the \<open>InvocationSetter\<close> methods are defined in pkg/rpcinfo,
  outside server_handler.go. The spec (section 3) gives the setter view as the
  means "to record resolved package/service/method": each setter stores its argument in the
  field of its name.\<close>

definition setMethodName :: "string \<Rightarrow> ('c, 'e, 'p) call \<Rightarrow> ('c, 'e, 'p) call" where
  "setMethodName v st = emit (SetMethodName v) (st\<lparr>ink := (ink st)\<lparr>MethodName := v\<rparr>\<rparr>)"

text \<open>Modelled from the spec: \<open>SetPackageName\<close> of the same setter view (pkg/rpcinfo,
  outside server_handler.go); it records the resolved package.\<close>

definition setPackageName :: "string \<Rightarrow> ('c, 'e, 'p) call \<Rightarrow> ('c, 'e, 'p) call" where
  "setPackageName v st = emit (SetPackageName v) (st\<lparr>ink := (ink st)\<lparr>PackageName := v\<rparr>\<rparr>)"

text \<open>Modelled from the spec: \<open>SetServiceName\<close> of the same setter view (pkg/rpcinfo,
  outside server_handler.go); it records the resolved service.\<close>

definition setServiceName :: "string \<Rightarrow> ('c, 'e, 'p) call \<Rightarrow> ('c, 'e, 'p) call" where
  "setServiceName v st = emit (SetServiceName v) (st\<lparr>ink := (ink st)\<lparr>ServiceName := v\<rparr>\<rparr>)"

text \<open>Modelled from the spec: \<open>convertFromKitexToGrpc\<close> is defined elsewhere in package
  nphttp2, outside server_handler.go. The spec (section 4.2): "Business errors are translated
  through a configurable error-to-status mapping that must preserve the original message
  text."\<close>

definition convertFromKitexToGrpc :: "('e, 'p) Runtime \<Rightarrow> 'e \<Rightarrow> status" where
  "convertFromKitexToGrpc rt err = New (ErrorCode rt err) (ErrorText rt err)"

text \<open>Modelled from the spec: the constant \<open>grpcTransport.Infinity\<close> is declared in the grpc
  transport package, outside server_handler.go. The spec (section 4.6) calls it "an unbounded
  value"; as a \<open>time.Duration\<close> (an int64) that is the largest one.\<close>

definition Infinity :: "64 word" where
  "Infinity = 0x7FFFFFFFFFFFFFFF"

subsection \<open>Strings\<close>

text \<open>\<open>strings.LastIndex(s, substr)\<close>: the index of the last instance of \<open>substr\<close> in
  \<open>s\<close>, or \<open>-1\<close>. The search runs from the rightmost position downwards.\<close>

fun lastIndexFrom :: "nat \<Rightarrow> string \<Rightarrow> string \<Rightarrow> int" where
  "lastIndexFrom 0 s substr = (if take (length substr) s = substr then 0 else - 1)"
| "lastIndexFrom (Suc i) s substr =
     (if take (length substr) (drop (Suc i) s) = substr then int (Suc i)
      else lastIndexFrom i s substr)"

definition LastIndex :: "string \<Rightarrow> string \<Rightarrow> int" where
  "LastIndex s substr =
     (if length s < length substr then - 1
      else lastIndexFrom (length s - length substr) s substr)"

text \<open>The slice expression \<open>s[lo:hi]\<close>; \<open>None\<close> where Go panics (bounds out of range).\<close>

definition goSlice :: "string \<Rightarrow> int \<Rightarrow> int \<Rightarrow> string option" where
  "goSlice s lo hi =
     (if 0 \<le> lo \<and> lo \<le> hi \<and> hi \<le> int (length s)
      then Some (take (nat hi - nat lo) (drop (nat lo) s))
      else None)"

subsection \<open>The handler\<close>

text \<open>\<open>startTracer\<close> (lines 191-194).\<close>

definition startTracer ::
  "('c, 'e, 'p) svrTransHandler \<Rightarrow> 'c \<Rightarrow> ('c, 'e, 'p) call \<Rightarrow> 'c \<times> ('c, 'e, 'p) call" where
  "startTracer t ctx st = (TracerCtl (opt t) ctx, emit (DoStart ctx) st)"

text \<open>\<open>finishTracer\<close> (lines 196-206).\<close>

definition finishTracer ::
  "'c \<Rightarrow> RPCInfo \<Rightarrow> 'e option \<Rightarrow> 'p option \<Rightarrow> ('c, 'e, 'p) call \<Rightarrow> ('c, 'e, 'p) call" where
  "finishTracer ctx ri err panicErr st =
     (if \<not> MutableStats ri then st
      else
        let st1 = (case panicErr of None \<Rightarrow> st | Some p \<Rightarrow> emit (SetPanicked p) st);
            st2 = emit (DoFinish ctx err) st1
        in emit Reset st2)"

text \<open>The metadata handler loop of the stream goroutine (lines 101-107). The result carries the
  last values assigned to \<open>ctx\<close> and \<open>err\<close>; the loop stops at the first error.\<close>

fun metaHandlers ::
  "('c \<Rightarrow> 'c \<times> 'e option) list \<Rightarrow> nat \<Rightarrow> 'c \<Rightarrow> ('c, 'e, 'p) call
     \<Rightarrow> ('c \<times> 'e option) \<times> ('c, 'e, 'p) call" where
  "metaHandlers [] i ctx st = ((ctx, None), st)"
| "metaHandlers (shdlr # rest) i ctx st =
     (case shdlr ctx of
        (ctx', Some err) \<Rightarrow> ((ctx', Some err), emit (OnReadStream i ctx) st)
      | (ctx', None) \<Rightarrow> metaHandlers rest (Suc i) ctx' (emit (OnReadStream i ctx) st))"

text \<open>Lines 122-125: one leading \<open>/\<close> is dropped.\<close>

definition methodPath :: "string \<Rightarrow> string" where
  "methodPath m = (case m of [] \<Rightarrow> m | c # rest \<Rightarrow> if c = CHR ''/'' then rest else m)"

text \<open>Lines 121-148: the part of the stream goroutine that runs under the deferred function.
  The second component is the value \<open>recover()\<close> will yield: \<open>None\<close> when the code returned.\<close>

definition resolveAndInvoke ::
  "('e, 'p) Runtime \<Rightarrow> ('c, 'e, 'p) svrTransHandler \<Rightarrow> 'c Stream \<Rightarrow> 'c \<Rightarrow> ('c, 'e, 'p) call
     \<Rightarrow> ('c, 'e, 'p) call \<times> 'p option" where
  "resolveAndInvoke rt t s ctx st =
     (let sm = methodPath (Method s);
          pos = LastIndex sm ''/''
      in if pos = - 1 then
           (emit (WriteStatus (New ResourceExhausted
                    (''malformed method name: '' @ Sprintf_q rt (Method s)))) st, None)
         else
           case goSlice sm (pos + 1) (int (length sm)) of
             None \<Rightarrow> (st, Some (BoundsError rt))
           | Some method \<Rightarrow>
               let st1 = setMethodName method st
               in case goSlice sm 0 pos of
                    None \<Rightarrow> (st1, Some (BoundsError rt))
                  | Some qualified \<Rightarrow>
                      let idx = LastIndex qualified ''.''
                      in if idx = - 1 then
                           (emit (WriteStatus (New ResourceExhausted
                              (''malformed package and service name: '' @ Sprintf_q rt (Method s)))) st1,
                            None)
                         else
                           case goSlice sm 0 idx of
                             None \<Rightarrow> (st1, Some (BoundsError rt))
                           | Some package \<Rightarrow>
                               let st2 = setPackageName package st1
                               in case goSlice sm (idx + 1) pos of
                                    None \<Rightarrow> (st2, Some (BoundsError rt))
                                  | Some service \<Rightarrow>
                                      let st3 = setServiceName service st2;
                                          st4 = emit (Invoke ctx) st3
                                      in case inkHdlFunc t ctx (ink st3) of
                                           Panic p \<Rightarrow> (st4, Some p)
                                         | Return (Some err) \<Rightarrow>
                                             (emit (WriteStatus (convertFromKitexToGrpc rt err)) st4, None)
                                         | Return None \<Rightarrow>
                                             (emit (WriteStatus (New OK [])) st4, None))"

text \<open>Lines 109-119: the deferred function. It recovers, logs a panic with the stack, and
  calls \<open>finishTracer\<close> with the goroutine's variable \<open>err\<close>.\<close>

definition deferred ::
  "('e, 'p) Runtime \<Rightarrow> Conn option \<Rightarrow> 'c \<Rightarrow> RPCInfo \<Rightarrow> 'e option
     \<Rightarrow> ('c, 'e, 'p) call \<times> 'p option \<Rightarrow> ('c, 'e, 'p) call" where
  "deferred rt conn ctx ri err r =
     (case r of (st, panicErr) \<Rightarrow>
        let st1 =
          (case panicErr of
             None \<Rightarrow> st
           | Some p \<Rightarrow>
               (case conn of
                  Some c \<Rightarrow>
                    emit (Errorf (''KITEX: panic happened, close conn[%s], %v'' @ [CHR 0x0A] @ ''%s'')
                            [Addr (RemoteAddr c), Payload p, Text (Stack rt)]) st
                | None \<Rightarrow>
                    emit (Errorf (''KITEX: panic happened, %v'' @ [CHR 0x0A] @ ''%s'')
                            [Payload p, Text (Stack rt)]) st))
        in finishTracer ctx ri err panicErr st1)"

text \<open>Lines 97-100: the call state is made and tagged.\<close>

definition initCall ::
  "('c, 'e, 'p) svrTransHandler \<Rightarrow> string \<Rightarrow> 'c Stream \<Rightarrow> (RPCInfo \<times> 'c) \<times> ('c, 'e, 'p) call" where
  "initCall t tr s =
     (let (ri, ctx) = InitRPCInfoFunc (opt t) (Context s) tr
      in ((ri, ctx), \<lparr>ink = invocation ri, trace = [SetTransportProtocol GRPC]\<rparr>))"

text \<open>Lines 97-107: the call state, then the metadata handlers.\<close>

definition handshake ::
  "('c, 'e, 'p) svrTransHandler \<Rightarrow> string \<Rightarrow> 'c Stream \<Rightarrow> ('c \<times> 'e option) \<times> ('c, 'e, 'p) call" where
  "handshake t tr s =
     (case initCall t tr s of
        ((ri, ctx), st) \<Rightarrow> metaHandlers (StreamingMetaHandlers (opt t)) 0 ctx st)"

text \<open>Lines 96-149: the goroutine \<open>OnRead\<close> starts for each stream \<open>s\<close> the transport delivers;
  \<open>tr\<close> is the transport's remote address, \<open>conn\<close> the connection \<open>OnRead\<close> was given.
  The deferred function reads the variable \<open>err\<close> declared at line 100, which only the
  handler loop assigns; the endpoint's error at line 144 is a new variable of the \<open>if\<close>
  statement. \<open>NewStream\<close> and \<open>newServerConn\<close> (line 143) only build values.\<close>

definition OnRead_stream ::
  "('e, 'p) Runtime \<Rightarrow> ('c, 'e, 'p) svrTransHandler \<Rightarrow> Conn option \<Rightarrow> string \<Rightarrow> 'c Stream
     \<Rightarrow> ('c, 'e, 'p) call" where
  "OnRead_stream rt t conn tr s =
     (case initCall t tr s of
        ((ri, ctx0), st0) \<Rightarrow>
          (case metaHandlers (StreamingMetaHandlers (opt t)) 0 ctx0 st0 of
             ((ctx, err), st) \<Rightarrow>
               (case err of
                  Some e \<Rightarrow> emit (WriteStatus (convertFromKitexToGrpc rt e)) st
                | None \<Rightarrow>
                    (case startTracer t ctx st of
                       (ctx', st') \<Rightarrow>
                         deferred rt conn ctx' ri err (resolveAndInvoke rt t s ctx' st')))))"

text \<open>\<open>OnActive\<close> (lines 162-167). The type assertion \<open>conn.(netpoll.Connection)\<close> panics
  on any other value; otherwise the call returns the connection with its new read timeout,
  the context and a nil error.\<close>

datatype ('c, 'e) activated = Returned Conn 'c "'e option" | AssertionPanic

definition OnActive :: "'c \<Rightarrow> Conn option \<Rightarrow> ('c, 'e) activated" where
  "OnActive ctx conn =
     (case conn of
        Some (NetpollConn addr timeout) \<Rightarrow> Returned (NetpollConn addr Infinity) ctx None
      | _ \<Rightarrow> AssertionPanic)"

subsection \<open>Reading a trace\<close>

primrec statuses :: "('c, 'e, 'p) event list \<Rightarrow> status list" where
  "statuses [] = []"
| "statuses (e # es) = (case e of WriteStatus st \<Rightarrow> st # statuses es | _ \<Rightarrow> statuses es)"

primrec invocations :: "('c, 'e, 'p) event list \<Rightarrow> 'c list" where
  "invocations [] = []"
| "invocations (e # es) = (case e of Invoke c \<Rightarrow> c # invocations es | _ \<Rightarrow> invocations es)"

primrec handlerCalls :: "('c, 'e, 'p) event list \<Rightarrow> (nat \<times> 'c) list" where
  "handlerCalls [] = []"
| "handlerCalls (e # es) =
     (case e of OnReadStream i c \<Rightarrow> (i, c) # handlerCalls es | _ \<Rightarrow> handlerCalls es)"

primrec finishes :: "('c, 'e, 'p) event list \<Rightarrow> ('c \<times> 'e option) list" where
  "finishes [] = []"
| "finishes (e # es) = (case e of DoFinish c err \<Rightarrow> (c, err) # finishes es | _ \<Rightarrow> finishes es)"

primrec starts :: "('c, 'e, 'p) event list \<Rightarrow> 'c list" where
  "starts [] = []"
| "starts (e # es) = (case e of DoStart c \<Rightarrow> c # starts es | _ \<Rightarrow> starts es)"

primrec panicsLogged :: "('c, 'e, 'p) event list \<Rightarrow> 'p logarg list list" where
  "panicsLogged [] = []"
| "panicsLogged (e # es) =
     (case e of Errorf f args \<Rightarrow> args # panicsLogged es | _ \<Rightarrow> panicsLogged es)"

text \<open>Names for two values of a stream goroutine: the \<open>RPCInfo\<close> the factory made for the stream, and
  the context after the handshake and \<open>startTracer\<close>, which is the one the endpoint and
  \<open>finishTracer\<close> receive.\<close>

definition callInfo :: "('c, 'e, 'p) svrTransHandler \<Rightarrow> string \<Rightarrow> 'c Stream \<Rightarrow> RPCInfo" where
  "callInfo t tr s = fst (InitRPCInfoFunc (opt t) (Context s) tr)"

definition tracedCtx :: "('c, 'e, 'p) svrTransHandler \<Rightarrow> string \<Rightarrow> 'c Stream \<Rightarrow> 'c" where
  "tracedCtx t tr s = TracerCtl (opt t) (fst (fst (handshake t tr s)))"

subsection \<open>A concrete configuration\<close>

text \<open>Contexts are numbers, errors and panic payloads are strings; \<open>%q\<close> puts its
  argument between double quotes; the factory makes an empty invocation with mutable stats.\<close>

definition exampleRuntime :: "(string, string) Runtime" where
  "exampleRuntime =
     \<lparr>Sprintf_q = (\<lambda>s. [CHR 0x22] @ s @ [CHR 0x22]), Stack = ''goroutine 7 [running]'',
      ErrorText = (\<lambda>e. e), ErrorCode = (\<lambda>e. OtherCode 13),
      BoundsError = ''slice bounds out of range''\<rparr>"

definition exampleHandler ::
  "(nat \<Rightarrow> nat \<times> string option) list \<Rightarrow> (nat \<Rightarrow> Invocation \<Rightarrow> (string, string) outcome)
     \<Rightarrow> (nat, string, string) svrTransHandler" where
  "exampleHandler hs ep =
     \<lparr>opt = \<lparr>InitRPCInfoFunc =
               (\<lambda>c addr. (\<lparr>invocation = \<lparr>PackageName = [], ServiceName = [], MethodName = []\<rparr>,
                            MutableStats = True\<rparr>, c)),
             StreamingMetaHandlers = hs, TracerCtl = (\<lambda>c. c + 100)\<rparr>,
      inkHdlFunc = ep\<rparr>"

text \<open>The same configuration with a factory whose stats expose no mutable view.\<close>

definition nilStatsHandler ::
  "(nat \<Rightarrow> nat \<times> string option) list \<Rightarrow> (nat \<Rightarrow> Invocation \<Rightarrow> (string, string) outcome)
     \<Rightarrow> (nat, string, string) svrTransHandler" where
  "nilStatsHandler hs ep =
     \<lparr>opt = \<lparr>InitRPCInfoFunc =
               (\<lambda>c addr. (\<lparr>invocation = \<lparr>PackageName = [], ServiceName = [], MethodName = []\<rparr>,
                            MutableStats = False\<rparr>, c)),
             StreamingMetaHandlers = hs, TracerCtl = (\<lambda>c. c + 100)\<rparr>,
      inkHdlFunc = ep\<rparr>"

definition pass :: "nat \<Rightarrow> nat \<times> string option" where
  "pass c = (Suc c, None)"

definition deny :: "nat \<Rightarrow> nat \<times> string option" where
  "deny c = (c, Some ''denied'')"

definition exampleConn :: "Conn option" where
  "exampleConn = Some (NetpollConn ''10.0.0.1:8888'' 0)"

section \<open>Facts about the string functions\<close>

lemma take1_drop_eq: "take (Suc 0) (drop i s) = [c] \<longleftrightarrow> i < length s \<and> s ! i = c"
proof (cases "i < length s")
  case True
  then have "drop i s = s ! i # drop (Suc i) s" by (simp add: Cons_nth_drop_Suc)
  with True show ?thesis by simp
next
  case False
  then show ?thesis by simp
qed

lemma lastIndexFrom_none:
  "lastIndexFrom n s [c] = - 1 \<longleftrightarrow> (\<forall>i\<le>n. i < length s \<longrightarrow> s ! i \<noteq> c)"
proof (induction n)
  case 0
  show ?case using take1_drop_eq [of 0 s c] by auto
next
  case (Suc n)
  show ?case using Suc.IH take1_drop_eq [of "Suc n" s c] by (auto simp: le_Suc_eq)
qed

lemma lastIndexFrom_found:
  "lastIndexFrom n s [c] \<noteq> - 1 \<Longrightarrow>
     0 \<le> lastIndexFrom n s [c] \<and> nat (lastIndexFrom n s [c]) \<le> n
     \<and> nat (lastIndexFrom n s [c]) < length s \<and> s ! nat (lastIndexFrom n s [c]) = c
     \<and> (\<forall>j. nat (lastIndexFrom n s [c]) < j \<and> j \<le> n \<and> j < length s \<longrightarrow> s ! j \<noteq> c)"
proof (induction n)
  case 0
  then show ?case using take1_drop_eq [of 0 s c] by (auto split: if_splits)
next
  case (Suc n)
  show ?case
  proof (cases "take (Suc 0) (drop (Suc n) s) = [c]")
    case True
    then show ?thesis using take1_drop_eq [of "Suc n" s c] by (auto simp del: of_nat_Suc)
  next
    case False
    then have eq: "lastIndexFrom (Suc n) s [c] = lastIndexFrom n s [c]" by simp
    with Suc.prems have "lastIndexFrom n s [c] \<noteq> - 1" by simp
    from Suc.IH [OF this] False take1_drop_eq [of "Suc n" s c] show ?thesis
      unfolding eq by (auto simp: le_Suc_eq)
  qed
qed

lemma LastIndex_none: "LastIndex s [c] = - 1 \<longleftrightarrow> c \<notin> set s"
proof (cases s)
  case Nil
  then show ?thesis by (simp add: LastIndex_def)
next
  case (Cons a as)
  then have "LastIndex s [c] = lastIndexFrom (length s - 1) s [c]" by (simp add: LastIndex_def)
  moreover have "(\<forall>i\<le>length s - 1. i < length s \<longrightarrow> s ! i \<noteq> c) \<longleftrightarrow> c \<notin> set s"
  proof -
    have "\<And>i. i < length s \<Longrightarrow> i \<le> length s - 1" by simp
    then show ?thesis by (fastforce simp: in_set_conv_nth)
  qed
  ultimately show ?thesis using lastIndexFrom_none [of "length s - 1" s c] by simp
qed

lemma LastIndex_found:
  assumes "LastIndex s [c] \<noteq> - 1"
  shows "0 \<le> LastIndex s [c]" and "LastIndex s [c] < int (length s)"
    and "s ! nat (LastIndex s [c]) = c"
    and "c \<notin> set (drop (Suc (nat (LastIndex s [c]))) s)"
proof -
  from assms have ne: "s \<noteq> []" by (auto simp: LastIndex_def)
  then have eq: "LastIndex s [c] = lastIndexFrom (length s - 1) s [c]"
    by (cases s) (simp_all add: LastIndex_def)
  from assms have "lastIndexFrom (length s - 1) s [c] \<noteq> - 1" by (simp add: eq)
  note f = lastIndexFrom_found [OF this, folded eq]
  from f show "0 \<le> LastIndex s [c]" by simp
  from f show "LastIndex s [c] < int (length s)" by linarith
  from f show "s ! nat (LastIndex s [c]) = c" by simp
  show "c \<notin> set (drop (Suc (nat (LastIndex s [c]))) s)"
  proof
    assume "c \<in> set (drop (Suc (nat (LastIndex s [c]))) s)"
    then obtain k where k: "k < length s - Suc (nat (LastIndex s [c]))"
      "drop (Suc (nat (LastIndex s [c]))) s ! k = c"
      by (auto simp: in_set_conv_nth)
    then have "s ! (Suc (nat (LastIndex s [c])) + k) = c" by simp
    moreover have "nat (LastIndex s [c]) < Suc (nat (LastIndex s [c])) + k"
      "Suc (nat (LastIndex s [c])) + k \<le> length s - 1" "Suc (nat (LastIndex s [c])) + k < length s"
      using k by simp_all
    ultimately show False using f by blast
  qed
qed

lemma LastIndex_last_occurrence:
  assumes "c \<notin> set ys"
  shows "LastIndex (xs @ c # ys) [c] = int (length xs)"
proof -
  let ?s = "xs @ c # ys"
  have "c \<in> set ?s" by simp
  then have ne: "LastIndex ?s [c] \<noteq> - 1" by (simp add: LastIndex_none)
  note f = LastIndex_found [OF ne]
  let ?k = "nat (LastIndex ?s [c])"
  have "\<not> ?k < length xs"
  proof
    assume lt: "?k < length xs"
    then have "drop (Suc ?k) ?s = drop (Suc ?k) xs @ c # ys" by simp
    with f(4) show False by simp
  qed
  moreover have "\<not> length xs < ?k"
  proof
    assume gt: "length xs < ?k"
    then have "?s ! ?k = ys ! (?k - Suc (length xs))"
      by (simp add: nth_append nth_Cons')
    moreover have "?k - Suc (length xs) < length ys" using f(2) gt by simp
    ultimately have "?s ! ?k \<in> set ys" by simp
    with f(3) assms show False by simp
  qed
  ultimately have "?k = length xs" by simp
  with f(1) show ?thesis by simp
qed


section \<open>Facts about traces and the handler loop\<close>

lemma statuses_append: "statuses (xs @ ys) = statuses xs @ statuses ys"
  by (induction xs) (simp_all split: event.splits)

lemma invocations_append: "invocations (xs @ ys) = invocations xs @ invocations ys"
  by (induction xs) (simp_all split: event.splits)

lemma handlerCalls_append: "handlerCalls (xs @ ys) = handlerCalls xs @ handlerCalls ys"
  by (induction xs) (simp_all split: event.splits)

lemma finishes_append: "finishes (xs @ ys) = finishes xs @ finishes ys"
  by (induction xs) (simp_all split: event.splits)

lemma starts_append: "starts (xs @ ys) = starts xs @ starts ys"
  by (induction xs) (simp_all split: event.splits)

lemma panicsLogged_append: "panicsLogged (xs @ ys) = panicsLogged xs @ panicsLogged ys"
  by (induction xs) (simp_all split: event.splits)

lemmas readers_append =
  statuses_append invocations_append handlerCalls_append finishes_append starts_append
  panicsLogged_append

lemma readers_of_handler_calls:
  "handlerCalls (map (\<lambda>(j, c). OnReadStream j c) cs) = cs"
  "statuses (map (\<lambda>(j, c). OnReadStream j c) cs) = []"
  "invocations (map (\<lambda>(j, c). OnReadStream j c) cs) = []"
  "finishes (map (\<lambda>(j, c). OnReadStream j c) cs) = []"
  "starts (map (\<lambda>(j, c). OnReadStream j c) cs) = []"
  "panicsLogged (map (\<lambda>(j, c). OnReadStream j c) cs) = []"
  by (induction cs) auto

lemma metaHandlers_run:
  "\<exists>cs. trace (snd (metaHandlers hs i ctx st)) = trace st @ map (\<lambda>(j, c). OnReadStream j c) cs
      \<and> ink (snd (metaHandlers hs i ctx st)) = ink st
      \<and> length cs \<le> length hs
      \<and> map fst cs = [i..<i + length cs]
      \<and> (\<forall>m<length cs. snd ((hs ! m) (snd (cs ! m)))
            = (if Suc m = length cs then snd (fst (metaHandlers hs i ctx st)) else None))
      \<and> (snd (fst (metaHandlers hs i ctx st)) = None \<longrightarrow> length cs = length hs)
      \<and> (snd (fst (metaHandlers hs i ctx st)) \<noteq> None \<longrightarrow> cs \<noteq> [])"
proof (induction hs arbitrary: i ctx st)
  case Nil
  show ?case by simp
next
  case (Cons h hs)
  obtain ctx' r where h: "h ctx = (ctx', r)" by (cases "h ctx")
  show ?case
  proof (cases r)
    case (Some err)
    with h have "trace (snd (metaHandlers (h # hs) i ctx st)) = trace st @ map (\<lambda>(j, c). OnReadStream j c) [(i, ctx)]"
      "ink (snd (metaHandlers (h # hs) i ctx st)) = ink st"
      "snd (fst (metaHandlers (h # hs) i ctx st)) = Some err"
      by (simp_all add: emit_def)
    moreover have "snd (((h # hs) ! 0) (snd ([(i, ctx)] ! 0))) = Some err" using h Some by simp
    ultimately show ?thesis
      by (intro exI [of _ "[(i, ctx)]"]) (simp del: metaHandlers.simps)
  next
    case None
    with h have step: "metaHandlers (h # hs) i ctx st
        = metaHandlers hs (Suc i) ctx' (emit (OnReadStream i ctx) st)"
      by simp
    from Cons.IH [of "Suc i" ctx' "emit (OnReadStream i ctx) st"]
    obtain cs where all:
      "trace (snd (metaHandlers hs (Suc i) ctx' (emit (OnReadStream i ctx) st)))
         = trace (emit (OnReadStream i ctx) st) @ map (\<lambda>(j, c). OnReadStream j c) cs
      \<and> ink (snd (metaHandlers hs (Suc i) ctx' (emit (OnReadStream i ctx) st)))
         = ink (emit (OnReadStream i ctx) st)
      \<and> length cs \<le> length hs
      \<and> map fst cs = [Suc i..<Suc i + length cs]
      \<and> (\<forall>m<length cs. snd ((hs ! m) (snd (cs ! m)))
            = (if Suc m = length cs
               then snd (fst (metaHandlers hs (Suc i) ctx' (emit (OnReadStream i ctx) st)))
               else None))
      \<and> (snd (fst (metaHandlers hs (Suc i) ctx' (emit (OnReadStream i ctx) st))) = None
          \<longrightarrow> length cs = length hs)
      \<and> (snd (fst (metaHandlers hs (Suc i) ctx' (emit (OnReadStream i ctx) st))) \<noteq> None
          \<longrightarrow> cs \<noteq> [])" ..
    note cs = all [THEN conjunct1] all [THEN conjunct2, THEN conjunct1]
      all [THEN conjunct2, THEN conjunct2, THEN conjunct1]
      all [THEN conjunct2, THEN conjunct2, THEN conjunct2, THEN conjunct1]
      all [THEN conjunct2, THEN conjunct2, THEN conjunct2, THEN conjunct2, THEN conjunct1]
      all [THEN conjunct2, THEN conjunct2, THEN conjunct2, THEN conjunct2, THEN conjunct2, THEN conjunct1]
      all [THEN conjunct2, THEN conjunct2, THEN conjunct2, THEN conjunct2, THEN conjunct2, THEN conjunct2]
    let ?cs = "(i, ctx) # cs"
    have 1: "trace (snd (metaHandlers (h # hs) i ctx st)) = trace st @ map (\<lambda>(j, c). OnReadStream j c) ?cs"
      using cs(1) by (simp add: step emit_def del: metaHandlers.simps)
    have 2: "ink (snd (metaHandlers (h # hs) i ctx st)) = ink st"
      using cs(2) by (simp add: step emit_def del: metaHandlers.simps)
    have 3: "length ?cs \<le> length (h # hs)" using cs(3) by simp
    have 4: "map fst ?cs = [i..<i + length ?cs]"
    proof -
      have "[i..<i + length ?cs] = i # [Suc i..<Suc i + length cs]"
        by (simp add: upt_conv_Cons del: upt_Suc)
      with cs(4) show ?thesis by (simp del: upt_Suc)
    qed
    have 5: "\<forall>m<length ?cs. snd (((h # hs) ! m) (snd (?cs ! m)))
            = (if Suc m = length ?cs then snd (fst (metaHandlers (h # hs) i ctx st)) else None)"
    proof (intro allI impI)
      fix m assume m: "m < length ?cs"
      show "snd (((h # hs) ! m) (snd (?cs ! m)))
            = (if Suc m = length ?cs then snd (fst (metaHandlers (h # hs) i ctx st)) else None)"
      proof (cases m)
        case 0
        show ?thesis
        proof (cases "cs = []")
          case True
          then have "snd (fst (metaHandlers hs (Suc i) ctx' (emit (OnReadStream i ctx) st))) = None"
            using cs(7) by blast
          with 0 True h None show ?thesis by (simp add: step del: metaHandlers.simps)
        next
          case False
          with 0 h None show ?thesis by simp
        qed
      next
        case (Suc k)
        with m have "k < length cs" by simp
        with cs(5) Suc show ?thesis by (simp add: step del: metaHandlers.simps)
      qed
    qed
    have 6: "snd (fst (metaHandlers (h # hs) i ctx st)) = None \<longrightarrow> length ?cs = length (h # hs)"
      using cs(6) by (simp add: step del: metaHandlers.simps)
    have 7: "snd (fst (metaHandlers (h # hs) i ctx st)) \<noteq> None \<longrightarrow> ?cs \<noteq> []" by simp
    show ?thesis
      by (rule exI [of _ ?cs]) (intro conjI 1 2 3 4 5 6 7)
  qed
qed


section \<open>The paths through the stream goroutine\<close>

lemma goSlice_tail:
  "0 \<le> lo \<Longrightarrow> lo \<le> int (length s) \<Longrightarrow> goSlice s lo (int (length s)) = Some (drop (nat lo) s)"
  by (simp add: goSlice_def)

lemma goSlice_head:
  "0 \<le> hi \<Longrightarrow> hi \<le> int (length s) \<Longrightarrow> goSlice s 0 hi = Some (take (nat hi) s)"
  by (simp add: goSlice_def)

lemma goSlice_mid:
  "0 \<le> lo \<Longrightarrow> lo \<le> hi \<Longrightarrow> hi \<le> int (length s)
     \<Longrightarrow> goSlice s lo hi = Some (take (nat hi - nat lo) (drop (nat lo) s))"
  by (simp add: goSlice_def)

lemma resolve_malformed_method:
  assumes "LastIndex (methodPath (Method s)) ''/'' = - 1"
  shows "resolveAndInvoke rt t s ctx st =
     (emit (WriteStatus (New ResourceExhausted
        (''malformed method name: '' @ Sprintf_q rt (Method s)))) st, None)"
  using assms by (simp add: resolveAndInvoke_def Let_def)

lemma resolve_malformed_service:
  assumes sm: "sm = methodPath (Method s)"
    and pos: "pos = LastIndex sm ''/''" "pos \<noteq> - 1"
    and idx: "LastIndex (take (nat pos) sm) ''.'' = - 1"
  shows "resolveAndInvoke rt t s ctx st =
     (emit (WriteStatus (New ResourceExhausted
        (''malformed package and service name: '' @ Sprintf_q rt (Method s))))
        (setMethodName (drop (nat (pos + 1)) sm) st), None)"
proof -
  from pos have ne: "LastIndex sm [CHR ''/''] \<noteq> - 1" by simp
  from LastIndex_found(1,2) [OF ne] pos have b: "0 \<le> pos" "pos < int (length sm)" by simp_all
  then have 1: "goSlice sm (pos + 1) (int (length sm)) = Some (drop (nat (pos + 1)) sm)"
    by (intro goSlice_tail) simp_all
  from b have 2: "goSlice sm 0 pos = Some (take (nat pos) sm)"
    by (intro goSlice_head) simp_all
  show ?thesis
    using pos idx 1 2 unfolding resolveAndInvoke_def sm [symmetric] Let_def
    by simp
qed

lemma resolve_invoked:
  assumes sm: "sm = methodPath (Method s)"
    and pos: "pos = LastIndex sm ''/''" "pos \<noteq> - 1"
    and idx: "idx = LastIndex (take (nat pos) sm) ''.''" "idx \<noteq> - 1"
  shows "resolveAndInvoke rt t s ctx st =
     (case inkHdlFunc t ctx
             (ink (setServiceName (take (nat pos - nat (idx + 1)) (drop (nat (idx + 1)) sm))
                    (setPackageName (take (nat idx) sm)
                      (setMethodName (drop (nat (pos + 1)) sm) st)))) of
        Panic p \<Rightarrow>
          (emit (Invoke ctx)
             (setServiceName (take (nat pos - nat (idx + 1)) (drop (nat (idx + 1)) sm))
                (setPackageName (take (nat idx) sm)
                   (setMethodName (drop (nat (pos + 1)) sm) st))), Some p)
      | Return r \<Rightarrow>
          (emit (WriteStatus (case r of None \<Rightarrow> New OK [] | Some err \<Rightarrow> convertFromKitexToGrpc rt err))
             (emit (Invoke ctx)
               (setServiceName (take (nat pos - nat (idx + 1)) (drop (nat (idx + 1)) sm))
                  (setPackageName (take (nat idx) sm)
                     (setMethodName (drop (nat (pos + 1)) sm) st)))), None))"
proof -
  from pos have ne: "LastIndex sm [CHR ''/''] \<noteq> - 1" by simp
  from LastIndex_found(1,2) [OF ne] pos have b: "0 \<le> pos" "pos < int (length sm)" by simp_all
  from idx have ne': "LastIndex (take (nat pos) sm) [CHR ''.''] \<noteq> - 1" by simp
  from LastIndex_found(1,2) [OF ne'] idx b have c: "0 \<le> idx" "idx < pos" by simp_all
  from b have 1: "goSlice sm (pos + 1) (int (length sm)) = Some (drop (nat (pos + 1)) sm)"
    by (intro goSlice_tail) simp_all
  from b have 2: "goSlice sm 0 pos = Some (take (nat pos) sm)"
    by (intro goSlice_head) simp_all
  from b c have 3: "goSlice sm 0 idx = Some (take (nat idx) sm)"
    by (intro goSlice_head) simp_all
  from b c have 4: "goSlice sm (idx + 1) pos
      = Some (take (nat pos - nat (idx + 1)) (drop (nat (idx + 1)) sm))"
    by (intro goSlice_mid) simp_all
  show ?thesis
    using pos idx 1 2 3 4 unfolding resolveAndInvoke_def sm [symmetric] Let_def
    by (simp split: outcome.splits option.splits)
qed

lemma stream_handshake_failed:
  assumes "snd (fst (handshake t tr s)) = Some err"
  shows "OnRead_stream rt t conn tr s
     = emit (WriteStatus (convertFromKitexToGrpc rt err)) (snd (handshake t tr s))"
  using assms
  by (auto simp: OnRead_stream_def handshake_def split: prod.splits option.splits)

lemma stream_handshake_ok:
  assumes "snd (fst (handshake t tr s)) = None"
  shows "OnRead_stream rt t conn tr s
     = deferred rt conn (tracedCtx t tr s) (callInfo t tr s) None
         (resolveAndInvoke rt t s (tracedCtx t tr s)
            (emit (DoStart (fst (fst (handshake t tr s)))) (snd (handshake t tr s))))"
  using assms
  by (auto simp: OnRead_stream_def handshake_def tracedCtx_def callInfo_def startTracer_def
        initCall_def Let_def split: prod.splits option.splits)

lemma handshake_run:
  "\<exists>cs. trace (snd (handshake t tr s))
         = SetTransportProtocol GRPC # map (\<lambda>(j, c). OnReadStream j c) cs
      \<and> ink (snd (handshake t tr s)) = invocation (callInfo t tr s)
      \<and> length cs \<le> length (StreamingMetaHandlers (opt t))
      \<and> map fst cs = [0..<length cs]
      \<and> (\<forall>m<length cs. snd ((StreamingMetaHandlers (opt t) ! m) (snd (cs ! m)))
            = (if Suc m = length cs then snd (fst (handshake t tr s)) else None))
      \<and> (snd (fst (handshake t tr s)) = None \<longrightarrow> length cs = length (StreamingMetaHandlers (opt t)))
      \<and> (snd (fst (handshake t tr s)) \<noteq> None \<longrightarrow> cs \<noteq> [])"
proof -
  obtain ri ctx where i: "InitRPCInfoFunc (opt t) (Context s) tr = (ri, ctx)"
    by (cases "InitRPCInfoFunc (opt t) (Context s) tr")
  let ?st = "\<lparr>ink = invocation ri, trace = [SetTransportProtocol GRPC]\<rparr> :: ('a, 'b, 'c) call"
  have h: "handshake t tr s = metaHandlers (StreamingMetaHandlers (opt t)) 0 ctx ?st"
    by (simp add: handshake_def initCall_def i)
  have ri: "callInfo t tr s = ri" by (simp add: callInfo_def i)
  from metaHandlers_run [of "StreamingMetaHandlers (opt t)" 0 ctx ?st]
  show ?thesis unfolding h ri by simp
qed


lemma handshake_silent:
  "statuses (trace (snd (handshake t tr s))) = []"
  "invocations (trace (snd (handshake t tr s))) = []"
  "finishes (trace (snd (handshake t tr s))) = []"
  "starts (trace (snd (handshake t tr s))) = []"
  "panicsLogged (trace (snd (handshake t tr s))) = []"
  "ink (snd (handshake t tr s)) = invocation (callInfo t tr s)"
proof -
  from handshake_run [of t tr s] obtain cs where
    "trace (snd (handshake t tr s)) = SetTransportProtocol GRPC # map (\<lambda>(j, c). OnReadStream j c) cs
     \<and> ink (snd (handshake t tr s)) = invocation (callInfo t tr s)"
    by (elim exE conjE) (rule that, simp)
  then show "statuses (trace (snd (handshake t tr s))) = []"
    "invocations (trace (snd (handshake t tr s))) = []"
    "finishes (trace (snd (handshake t tr s))) = []"
    "starts (trace (snd (handshake t tr s))) = []"
    "panicsLogged (trace (snd (handshake t tr s))) = []"
    "ink (snd (handshake t tr s)) = invocation (callInfo t tr s)"
    by (simp_all add: readers_of_handler_calls)
qed

lemma handshake_calls:
  "handlerCalls (trace (snd (handshake t tr s))) \<noteq> [] \<or> snd (fst (handshake t tr s)) = None"
  "length (handlerCalls (trace (snd (handshake t tr s)))) \<le> length (StreamingMetaHandlers (opt t))"
  "map fst (handlerCalls (trace (snd (handshake t tr s))))
     = [0..<length (handlerCalls (trace (snd (handshake t tr s))))]"
  "\<forall>m<length (handlerCalls (trace (snd (handshake t tr s)))).
      snd ((StreamingMetaHandlers (opt t) ! m) (snd (handlerCalls (trace (snd (handshake t tr s))) ! m)))
        = (if Suc m = length (handlerCalls (trace (snd (handshake t tr s))))
           then snd (fst (handshake t tr s)) else None)"
proof -
  from handshake_run [of t tr s] obtain cs where all:
    "trace (snd (handshake t tr s)) = SetTransportProtocol GRPC # map (\<lambda>(j, c). OnReadStream j c) cs
      \<and> ink (snd (handshake t tr s)) = invocation (callInfo t tr s)
      \<and> length cs \<le> length (StreamingMetaHandlers (opt t))
      \<and> map fst cs = [0..<length cs]
      \<and> (\<forall>m<length cs. snd ((StreamingMetaHandlers (opt t) ! m) (snd (cs ! m)))
            = (if Suc m = length cs then snd (fst (handshake t tr s)) else None))
      \<and> (snd (fst (handshake t tr s)) = None \<longrightarrow> length cs = length (StreamingMetaHandlers (opt t)))
      \<and> (snd (fst (handshake t tr s)) \<noteq> None \<longrightarrow> cs \<noteq> [])" ..
  then have cs: "handlerCalls (trace (snd (handshake t tr s))) = cs"
    by (simp add: readers_of_handler_calls)
  from all show "handlerCalls (trace (snd (handshake t tr s))) \<noteq> [] \<or> snd (fst (handshake t tr s)) = None"
    unfolding cs by blast
  from all show "length (handlerCalls (trace (snd (handshake t tr s)))) \<le> length (StreamingMetaHandlers (opt t))"
    unfolding cs by blast
  from all show "map fst (handlerCalls (trace (snd (handshake t tr s))))
     = [0..<length (handlerCalls (trace (snd (handshake t tr s))))]"
    unfolding cs by blast
  from all show "\<forall>m<length (handlerCalls (trace (snd (handshake t tr s)))).
      snd ((StreamingMetaHandlers (opt t) ! m) (snd (handlerCalls (trace (snd (handshake t tr s))) ! m)))
        = (if Suc m = length (handlerCalls (trace (snd (handshake t tr s))))
           then snd (fst (handshake t tr s)) else None)"
    unfolding cs by blast
qed


lemma handshake_no_SetPanicked: "SetPanicked p \<in> set (trace (snd (handshake t tr s))) \<Longrightarrow> False"
proof -
  assume a: "SetPanicked p \<in> set (trace (snd (handshake t tr s)))"
  from handshake_run [of t tr s] obtain cs where
    "trace (snd (handshake t tr s)) = SetTransportProtocol GRPC # map (\<lambda>(j, c). OnReadStream j c) cs"
    by (elim exE conjE) (rule that)
  with a show False by auto
qed

lemma deferred_returned: "deferred rt conn ctx ri err (st, None) = finishTracer ctx ri err None st"
  by (simp add: deferred_def)

lemma deferred_panicked:
  "deferred rt conn ctx ri err (st, Some p)
     = finishTracer ctx ri err (Some p)
         (emit (Errorf (case conn of
                          Some c \<Rightarrow> ''KITEX: panic happened, close conn[%s], %v'' @ [CHR 0x0A] @ ''%s''
                        | None \<Rightarrow> ''KITEX: panic happened, %v'' @ [CHR 0x0A] @ ''%s'')
                  ((case conn of Some c \<Rightarrow> [Addr (RemoteAddr c)] | None \<Rightarrow> [])
                     @ [Payload p, Text (Stack rt)])) st)"
  by (simp add: deferred_def split: option.splits)

lemma finishTracer_readers:
  "statuses (trace (finishTracer ctx ri err pe st)) = statuses (trace st)"
  "invocations (trace (finishTracer ctx ri err pe st)) = invocations (trace st)"
  "handlerCalls (trace (finishTracer ctx ri err pe st)) = handlerCalls (trace st)"
  "starts (trace (finishTracer ctx ri err pe st)) = starts (trace st)"
  "panicsLogged (trace (finishTracer ctx ri err pe st)) = panicsLogged (trace st)"
  "ink (finishTracer ctx ri err pe st) = ink st"
  "finishes (trace (finishTracer ctx ri err pe st))
     = finishes (trace st) @ (if MutableStats ri then [(ctx, err)] else [])"
  by (simp_all add: finishTracer_def emit_def Let_def readers_append split: option.splits)

lemma finishTracer_nil: "\<not> MutableStats ri \<Longrightarrow> finishTracer ctx ri err pe st = st"
  by (simp add: finishTracer_def)

lemma finishTracer_trace:
  "MutableStats ri \<Longrightarrow> trace (finishTracer ctx ri err pe st)
     = trace st @ (case pe of None \<Rightarrow> [] | Some p \<Rightarrow> [SetPanicked p]) @ [DoFinish ctx err, Reset]"
  by (simp add: finishTracer_def emit_def Let_def split: option.splits)

lemma setters_readers:
  "statuses (trace (setMethodName v st)) = statuses (trace st)"
  "statuses (trace (setPackageName v st)) = statuses (trace st)"
  "statuses (trace (setServiceName v st)) = statuses (trace st)"
  "invocations (trace (setMethodName v st)) = invocations (trace st)"
  "invocations (trace (setPackageName v st)) = invocations (trace st)"
  "invocations (trace (setServiceName v st)) = invocations (trace st)"
  "finishes (trace (setMethodName v st)) = finishes (trace st)"
  "finishes (trace (setPackageName v st)) = finishes (trace st)"
  "finishes (trace (setServiceName v st)) = finishes (trace st)"
  "panicsLogged (trace (setMethodName v st)) = panicsLogged (trace st)"
  "panicsLogged (trace (setPackageName v st)) = panicsLogged (trace st)"
  "panicsLogged (trace (setServiceName v st)) = panicsLogged (trace st)"
  by (simp_all add: setMethodName_def setPackageName_def setServiceName_def emit_def readers_append)

lemma emit_readers:
  "trace (emit e st) = trace st @ [e]"
  "ink (emit e st) = ink st"
  by (simp_all add: emit_def)

lemma started_silent:
  "statuses (trace (emit (DoStart c) (snd (handshake t tr s)))) = []"
  "invocations (trace (emit (DoStart c) (snd (handshake t tr s)))) = []"
  "finishes (trace (emit (DoStart c) (snd (handshake t tr s)))) = []"
  "panicsLogged (trace (emit (DoStart c) (snd (handshake t tr s)))) = []"
  "ink (emit (DoStart c) (snd (handshake t tr s))) = invocation (callInfo t tr s)"
  by (simp_all add: emit_readers readers_append handshake_silent)


lemma resolved_ink:
  "ink (setServiceName c (setPackageName b (setMethodName a st)))
     = \<lparr>PackageName = b, ServiceName = c, MethodName = a\<rparr>"
  by (simp add: setMethodName_def setPackageName_def setServiceName_def emit_def)

lemma stream_resolved:
  assumes ok: "snd (fst (handshake t tr s)) = None"
    and sm: "sm = methodPath (Method s)"
    and pos: "pos = LastIndex sm ''/''" "pos \<noteq> - 1"
    and idx: "idx = LastIndex (take (nat pos) sm) ''.''" "idx \<noteq> - 1"
    and B: "B = emit (Invoke (tracedCtx t tr s))
               (setServiceName (take (nat pos - nat (idx + 1)) (drop (nat (idx + 1)) sm))
                  (setPackageName (take (nat idx) sm)
                     (setMethodName (drop (nat (pos + 1)) sm)
                        (emit (DoStart (fst (fst (handshake t tr s)))) (snd (handshake t tr s))))))"
  shows "ink B = \<lparr>PackageName = take (nat idx) sm,
                   ServiceName = take (nat pos - nat (idx + 1)) (drop (nat (idx + 1)) sm),
                   MethodName = drop (nat (pos + 1)) sm\<rparr>"
    and "statuses (trace B) = []"
    and "invocations (trace B) = [tracedCtx t tr s]"
    and "finishes (trace B) = []"
    and "panicsLogged (trace B) = []"
    and "OnRead_stream rt t conn tr s =
          (case inkHdlFunc t (tracedCtx t tr s) (ink B) of
             Panic p \<Rightarrow>
               finishTracer (tracedCtx t tr s) (callInfo t tr s) None (Some p)
                 (emit (Errorf (case conn of
                          Some c \<Rightarrow> ''KITEX: panic happened, close conn[%s], %v'' @ [CHR 0x0A] @ ''%s''
                        | None \<Rightarrow> ''KITEX: panic happened, %v'' @ [CHR 0x0A] @ ''%s'')
                  ((case conn of Some c \<Rightarrow> [Addr (RemoteAddr c)] | None \<Rightarrow> [])
                     @ [Payload p, Text (Stack rt)])) B)
           | Return r \<Rightarrow>
               finishTracer (tracedCtx t tr s) (callInfo t tr s) None None
                 (emit (WriteStatus (case r of None \<Rightarrow> New OK []
                                      | Some err \<Rightarrow> convertFromKitexToGrpc rt err)) B))"
proof -
  show i: "ink B = \<lparr>PackageName = take (nat idx) sm,
                   ServiceName = take (nat pos - nat (idx + 1)) (drop (nat (idx + 1)) sm),
                   MethodName = drop (nat (pos + 1)) sm\<rparr>"
    unfolding B by (simp add: emit_readers resolved_ink)
  show "statuses (trace B) = []" "invocations (trace B) = [tracedCtx t tr s]"
    "finishes (trace B) = []" "panicsLogged (trace B) = []"
    unfolding B
    by (simp_all add: emit_readers readers_append setters_readers handshake_silent)
  have i': "ink (setServiceName (take (nat pos - nat (idx + 1)) (drop (nat (idx + 1)) sm))
                  (setPackageName (take (nat idx) sm)
                     (setMethodName (drop (nat (pos + 1)) sm)
                        (emit (DoStart (fst (fst (handshake t tr s)))) (snd (handshake t tr s))))))
            = ink B"
    unfolding B by (simp add: emit_readers)
  show "OnRead_stream rt t conn tr s =
          (case inkHdlFunc t (tracedCtx t tr s) (ink B) of
             Panic p \<Rightarrow>
               finishTracer (tracedCtx t tr s) (callInfo t tr s) None (Some p)
                 (emit (Errorf (case conn of
                          Some c \<Rightarrow> ''KITEX: panic happened, close conn[%s], %v'' @ [CHR 0x0A] @ ''%s''
                        | None \<Rightarrow> ''KITEX: panic happened, %v'' @ [CHR 0x0A] @ ''%s'')
                  ((case conn of Some c \<Rightarrow> [Addr (RemoteAddr c)] | None \<Rightarrow> [])
                     @ [Payload p, Text (Stack rt)])) B)
           | Return r \<Rightarrow>
               finishTracer (tracedCtx t tr s) (callInfo t tr s) None None
                 (emit (WriteStatus (case r of None \<Rightarrow> New OK []
                                      | Some err \<Rightarrow> convertFromKitexToGrpc rt err)) B))"
    unfolding stream_handshake_ok [OF ok] resolve_invoked [OF sm pos idx] i'
    by (simp add: B deferred_returned deferred_panicked split: outcome.splits)
qed


section \<open>The stream goroutine\<close>

text \<open>
  C2, as the code has it. When some metadata handler returns an error, the handlers run are
  exactly those with indices \<open>0 .. k\<close>, each on the context its predecessor returned;
  handler \<open>k\<close> is the one that returned the error and every earlier one returned none. The
  translated status of that error is the one status written and the last event of the goroutine.
  The endpoint is not invoked, and the tracer is neither started nor finished: the return at
  line 105 precedes both \<open>startTracer\<close> and the registration of the deferred function.
\<close>

theorem handshake_failure_short_circuits:
  assumes fail: "snd (fst (handshake t tr s)) = Some err"
  shows "statuses (trace (OnRead_stream rt t conn tr s)) = [convertFromKitexToGrpc rt err]
     \<and> last (trace (OnRead_stream rt t conn tr s)) = WriteStatus (convertFromKitexToGrpc rt err)
     \<and> handlerCalls (trace (OnRead_stream rt t conn tr s)) \<noteq> []
     \<and> length (handlerCalls (trace (OnRead_stream rt t conn tr s)))
          \<le> length (StreamingMetaHandlers (opt t))
     \<and> map fst (handlerCalls (trace (OnRead_stream rt t conn tr s)))
          = [0..<length (handlerCalls (trace (OnRead_stream rt t conn tr s)))]
     \<and> snd ((StreamingMetaHandlers (opt t)
               ! (length (handlerCalls (trace (OnRead_stream rt t conn tr s))) - 1))
             (snd (last (handlerCalls (trace (OnRead_stream rt t conn tr s)))))) = Some err
     \<and> (\<forall>m. Suc m < length (handlerCalls (trace (OnRead_stream rt t conn tr s))) \<longrightarrow>
           snd ((StreamingMetaHandlers (opt t) ! m)
                 (snd (handlerCalls (trace (OnRead_stream rt t conn tr s)) ! m))) = None)
     \<and> invocations (trace (OnRead_stream rt t conn tr s)) = []
     \<and> starts (trace (OnRead_stream rt t conn tr s)) = []
     \<and> finishes (trace (OnRead_stream rt t conn tr s)) = []
     \<and> ink (OnRead_stream rt t conn tr s) = invocation (callInfo t tr s)"
proof -
  let ?H = "snd (handshake t tr s)"
  let ?R = "OnRead_stream rt t conn tr s"
  let ?cs = "handlerCalls (trace ?H)"
  have R: "?R = emit (WriteStatus (convertFromKitexToGrpc rt err)) ?H"
    by (rule stream_handshake_failed [OF fail])
  have tr: "trace ?R = trace ?H @ [WriteStatus (convertFromKitexToGrpc rt err)]"
    by (simp add: R emit_def)
  have calls: "handlerCalls (trace ?R) = ?cs" by (simp add: tr readers_append)
  from handshake_calls(1) [of t tr s] fail have ne: "?cs \<noteq> []" by simp
  note all = handshake_calls(4) [of t tr s]
  have lastc: "snd ((StreamingMetaHandlers (opt t) ! (length ?cs - 1)) (snd (last ?cs))) = Some err"
  proof -
    from ne have lt: "length ?cs - 1 < length ?cs" by simp
    from ne have "last ?cs = ?cs ! (length ?cs - 1)" by (rule last_conv_nth)
    with all [rule_format, OF lt] ne fail show ?thesis by simp
  qed
  have before: "\<forall>m. Suc m < length ?cs \<longrightarrow>
           snd ((StreamingMetaHandlers (opt t) ! m) (snd (?cs ! m))) = None"
  proof (intro allI impI)
    fix m assume m: "Suc m < length ?cs"
    then have lt: "m < length ?cs" by simp
    from all [rule_format, OF lt] m show
      "snd ((StreamingMetaHandlers (opt t) ! m) (snd (?cs ! m))) = None" by simp
  qed
  have 1: "statuses (trace ?R) = [convertFromKitexToGrpc rt err]"
    by (simp add: tr readers_append handshake_silent)
  have 2: "last (trace ?R) = WriteStatus (convertFromKitexToGrpc rt err)" by (simp add: tr)
  have 3: "invocations (trace ?R) = []" by (simp add: tr readers_append handshake_silent)
  have 4: "starts (trace ?R) = []" by (simp add: tr readers_append handshake_silent)
  have 5: "finishes (trace ?R) = []" by (simp add: tr readers_append handshake_silent)
  have 6: "ink ?R = invocation (callInfo t tr s)" by (simp add: R emit_def handshake_silent)
  show ?thesis
    unfolding calls
    using 1 2 3 4 5 6 ne lastc before handshake_calls(2,3) [of t tr s]
    by (intro conjI)
qed

text \<open>
  C5. When the handlers all succeed and the method string, after one optional leading \<open>/\<close>
  is dropped, contains no \<open>/\<close>, exactly one status is written: resource-exhausted, with
  the message \<open>malformed method name:\<close> followed by the \<open>%q\<close> quotation of the raw
  method string as the stream delivered it. The endpoint is not invoked and the invocation
  record is as the factory made it.
\<close>

theorem malformed_method_name:
  assumes ok: "snd (fst (handshake t tr s)) = None"
    and nosep: "CHR ''/'' \<notin> set (methodPath (Method s))"
  shows "statuses (trace (OnRead_stream rt t conn tr s))
       = [New ResourceExhausted (''malformed method name: '' @ Sprintf_q rt (Method s))]
     \<and> invocations (trace (OnRead_stream rt t conn tr s)) = []
     \<and> ink (OnRead_stream rt t conn tr s) = invocation (callInfo t tr s)"
proof -
  from nosep have "LastIndex (methodPath (Method s)) ''/'' = - 1" by (simp add: LastIndex_none)
  then have R: "OnRead_stream rt t conn tr s
      = finishTracer (tracedCtx t tr s) (callInfo t tr s) None None
          (emit (WriteStatus (New ResourceExhausted
                   (''malformed method name: '' @ Sprintf_q rt (Method s))))
             (emit (DoStart (fst (fst (handshake t tr s)))) (snd (handshake t tr s))))"
    by (simp add: stream_handshake_ok [OF ok] resolve_malformed_method deferred_returned)
  show ?thesis
    unfolding R by (simp add: finishTracer_readers emit_readers readers_append started_silent handshake_silent)
qed

text \<open>
  C6, as the code has it. When the handlers all succeed, a \<open>/\<close> is found, and the text
  before the last \<open>/\<close> contains no \<open>.\<close>, exactly one status is written:
  resource-exhausted, with the message \<open>malformed package and service name:\<close> followed by
  the quotation of the raw method string. The endpoint is not invoked. The status write is
  followed by what \<open>finishTracer\<close> adds: when the stats expose a mutable view, one run of
  the finish hooks and the reset, so that the finish hook runs exactly once, after the write;
  when they expose none (lines 197-200), nothing, so that no finish hook runs at all.
\<close>

theorem malformed_service_name:
  assumes ok: "snd (fst (handshake t tr s)) = None"
    and pos: "LastIndex (methodPath (Method s)) ''/'' \<noteq> - 1"
    and nodot: "CHR ''.'' \<notin> set (take (nat (LastIndex (methodPath (Method s)) ''/''))
                                     (methodPath (Method s)))"
    and st: "st = New ResourceExhausted
                    (''malformed package and service name: '' @ Sprintf_q rt (Method s))"
  shows "statuses (trace (OnRead_stream rt t conn tr s)) = [st]
     \<and> invocations (trace (OnRead_stream rt t conn tr s)) = []
     \<and> (\<exists>pre. trace (OnRead_stream rt t conn tr s)
                 = pre @ [WriteStatus st]
                     @ (if MutableStats (callInfo t tr s)
                        then [DoFinish (tracedCtx t tr s) None, Reset] else [])
               \<and> statuses pre = [] \<and> finishes pre = [])
     \<and> (MutableStats (callInfo t tr s) \<longrightarrow>
          finishes (trace (OnRead_stream rt t conn tr s)) = [(tracedCtx t tr s, None)])
     \<and> (\<not> MutableStats (callInfo t tr s) \<longrightarrow>
          finishes (trace (OnRead_stream rt t conn tr s)) = []
          \<and> last (trace (OnRead_stream rt t conn tr s)) = WriteStatus st)"
proof -
  let ?sm = "methodPath (Method s)"
  let ?pos = "LastIndex ?sm ''/''"
  let ?B = "setMethodName (drop (nat (?pos + 1)) ?sm)
              (emit (DoStart (fst (fst (handshake t tr s)))) (snd (handshake t tr s)))"
  let ?R' = "emit (WriteStatus st) ?B"
  from nodot have idx: "LastIndex (take (nat ?pos) ?sm) ''.'' = - 1" by (simp add: LastIndex_none)
  have R: "OnRead_stream rt t conn tr s
      = finishTracer (tracedCtx t tr s) (callInfo t tr s) None None ?R'"
    by (simp add: stream_handshake_ok [OF ok] st
          resolve_malformed_service [OF refl refl pos idx] deferred_returned)
  have fB: "finishes (trace ?B) = []" and sB: "statuses (trace ?B) = []"
    by (simp_all add: emit_readers readers_append setters_readers handshake_silent)
  have f: "finishes (trace ?R') = []"
    using fB by (simp add: emit_readers readers_append)
  have 1: "statuses (trace (OnRead_stream rt t conn tr s)) = [st]"
    unfolding R using sB by (simp add: finishTracer_readers emit_readers readers_append)
  have 2: "invocations (trace (OnRead_stream rt t conn tr s)) = []"
    unfolding R
    by (simp add: finishTracer_readers emit_readers readers_append setters_readers handshake_silent)
  have tr: "trace (OnRead_stream rt t conn tr s)
      = trace ?B @ [WriteStatus st]
          @ (if MutableStats (callInfo t tr s)
             then [DoFinish (tracedCtx t tr s) None, Reset] else [])"
    unfolding R by (simp add: finishTracer_def emit_def Let_def)
  have 3: "\<exists>pre. trace (OnRead_stream rt t conn tr s)
                 = pre @ [WriteStatus st]
                     @ (if MutableStats (callInfo t tr s)
                        then [DoFinish (tracedCtx t tr s) None, Reset] else [])
               \<and> statuses pre = [] \<and> finishes pre = []"
    using tr sB fB by blast
  have 4: "MutableStats (callInfo t tr s) \<longrightarrow>
          finishes (trace (OnRead_stream rt t conn tr s)) = [(tracedCtx t tr s, None)]"
    unfolding R using f by (simp add: finishTracer_readers)
  have 5: "\<not> MutableStats (callInfo t tr s) \<longrightarrow>
          finishes (trace (OnRead_stream rt t conn tr s)) = []
          \<and> last (trace (OnRead_stream rt t conn tr s)) = WriteStatus st"
    unfolding R using f by (simp add: finishTracer_nil emit_readers)
  from 1 2 3 4 5 show ?thesis by (intro conjI)
qed

text \<open>
  C9. On the malformed-service path the trace is: the handshake, \<open>DoStart\<close>, then
  \<open>SetMethodName\<close> with the text after the last \<open>/\<close>, and only then the status write,
  followed by what \<open>finishTracer\<close> adds. The final invocation record is the one the factory
  made with its method name replaced; package and service name are as the factory left them.
  So the record differs from the initial one whenever the parsed method segment differs from
  the initial method name.
\<close>

theorem malformed_service_sets_method_name:
  assumes ok: "snd (fst (handshake t tr s)) = None"
    and sm: "sm = methodPath (Method s)"
    and pos: "pos = LastIndex sm ''/''" "pos \<noteq> - 1"
    and idx: "LastIndex (take (nat pos) sm) ''.'' = - 1"
  shows "trace (OnRead_stream rt t conn tr s)
       = trace (snd (handshake t tr s))
         @ [DoStart (fst (fst (handshake t tr s))),
            SetMethodName (drop (nat (pos + 1)) sm),
            WriteStatus (New ResourceExhausted
              (''malformed package and service name: '' @ Sprintf_q rt (Method s)))]
         @ (if MutableStats (callInfo t tr s) then [DoFinish (tracedCtx t tr s) None, Reset] else [])
     \<and> statuses (trace (snd (handshake t tr s))) = []
     \<and> ink (snd (handshake t tr s)) = invocation (callInfo t tr s)
     \<and> ink (OnRead_stream rt t conn tr s)
          = (invocation (callInfo t tr s))\<lparr>MethodName := drop (nat (pos + 1)) sm\<rparr>
     \<and> MethodName (ink (OnRead_stream rt t conn tr s)) = drop (nat (pos + 1)) sm
     \<and> PackageName (ink (OnRead_stream rt t conn tr s)) = PackageName (invocation (callInfo t tr s))
     \<and> ServiceName (ink (OnRead_stream rt t conn tr s)) = ServiceName (invocation (callInfo t tr s))
     \<and> (MethodName (invocation (callInfo t tr s)) \<noteq> drop (nat (pos + 1)) sm \<longrightarrow>
          ink (OnRead_stream rt t conn tr s) \<noteq> invocation (callInfo t tr s))"
proof -
  have R: "OnRead_stream rt t conn tr s
      = finishTracer (tracedCtx t tr s) (callInfo t tr s) None None
          (emit (WriteStatus (New ResourceExhausted
                   (''malformed package and service name: '' @ Sprintf_q rt (Method s))))
             (setMethodName (drop (nat (pos + 1)) sm)
                (emit (DoStart (fst (fst (handshake t tr s)))) (snd (handshake t tr s)))))"
    by (simp add: stream_handshake_ok [OF ok]
          resolve_malformed_service [OF sm pos idx] deferred_returned)
  have i: "ink (OnRead_stream rt t conn tr s)
          = (invocation (callInfo t tr s))\<lparr>MethodName := drop (nat (pos + 1)) sm\<rparr>"
    unfolding R
    by (simp add: finishTracer_readers emit_readers setMethodName_def handshake_silent)
  have tr: "trace (OnRead_stream rt t conn tr s)
       = trace (snd (handshake t tr s))
         @ [DoStart (fst (fst (handshake t tr s))),
            SetMethodName (drop (nat (pos + 1)) sm),
            WriteStatus (New ResourceExhausted
              (''malformed package and service name: '' @ Sprintf_q rt (Method s)))]
         @ (if MutableStats (callInfo t tr s) then [DoFinish (tracedCtx t tr s) None, Reset] else [])"
    unfolding R
    by (simp add: finishTracer_def emit_def setMethodName_def Let_def)
  have ne: "MethodName (invocation (callInfo t tr s)) \<noteq> drop (nat (pos + 1)) sm \<longrightarrow>
          ink (OnRead_stream rt t conn tr s) \<noteq> invocation (callInfo t tr s)"
  proof
    assume d: "MethodName (invocation (callInfo t tr s)) \<noteq> drop (nat (pos + 1)) sm"
    show "ink (OnRead_stream rt t conn tr s) \<noteq> invocation (callInfo t tr s)"
    proof
      assume "ink (OnRead_stream rt t conn tr s) = invocation (callInfo t tr s)"
      then have "MethodName (ink (OnRead_stream rt t conn tr s))
          = MethodName (invocation (callInfo t tr s))" by simp
      with d show False by (simp add: i)
    qed
  qed
  show ?thesis
    using tr ne handshake_silent(1,6) [of t tr s] by (simp add: i)
qed

text \<open>
  C8. Whenever the handlers succeed and both separators are found, the three segments are
  recorded as they are, with no test for emptiness, and the endpoint is invoked once; the
  only status written is the one that follows from the endpoint's outcome, never a
  malformed-name status. (At \<open>./\<close> all three segments are empty; see the concrete run.)
\<close>

theorem empty_segments_pass_through:
  assumes ok: "snd (fst (handshake t tr s)) = None"
    and sm: "sm = methodPath (Method s)"
    and pos: "pos = LastIndex sm ''/''" "pos \<noteq> - 1"
    and idx: "idx = LastIndex (take (nat pos) sm) ''.''" "idx \<noteq> - 1"
  shows "ink (OnRead_stream rt t conn tr s)
       = \<lparr>PackageName = take (nat idx) sm,
          ServiceName = take (nat pos - nat (idx + 1)) (drop (nat (idx + 1)) sm),
          MethodName = drop (nat (pos + 1)) sm\<rparr>
     \<and> invocations (trace (OnRead_stream rt t conn tr s)) = [tracedCtx t tr s]
     \<and> statuses (trace (OnRead_stream rt t conn tr s))
         = (case inkHdlFunc t (tracedCtx t tr s) (ink (OnRead_stream rt t conn tr s)) of
              Panic p \<Rightarrow> []
            | Return None \<Rightarrow> [New OK []]
            | Return (Some err) \<Rightarrow> [convertFromKitexToGrpc rt err])"
proof -
  note r = stream_resolved [OF ok sm pos idx refl]
  have i: "ink (OnRead_stream rt t conn tr s)
       = \<lparr>PackageName = take (nat idx) sm,
          ServiceName = take (nat pos - nat (idx + 1)) (drop (nat (idx + 1)) sm),
          MethodName = drop (nat (pos + 1)) sm\<rparr>"
    unfolding r(6) using r(1)
    by (simp add: finishTracer_readers emit_readers split: outcome.splits)
  have v: "invocations (trace (OnRead_stream rt t conn tr s)) = [tracedCtx t tr s]"
    unfolding r(6) using r(3)
    by (simp add: finishTracer_readers emit_readers readers_append split: outcome.splits)
  have w: "statuses (trace (OnRead_stream rt t conn tr s))
         = (case inkHdlFunc t (tracedCtx t tr s) (ink (OnRead_stream rt t conn tr s)) of
              Panic p \<Rightarrow> []
            | Return None \<Rightarrow> [New OK []]
            | Return (Some err) \<Rightarrow> [convertFromKitexToGrpc rt err])"
    unfolding i unfolding r(6) using r(1,2)
    by (simp add: finishTracer_readers emit_readers readers_append
          split: outcome.splits option.splits)
  from i v w show ?thesis by (intro conjI)
qed

text \<open>
  C1, as the code has it. When the handlers succeed, the method resolves and the endpoint
  panics with payload \<open>p\<close>: the deferred function recovers; no status is written; one log
  call is made, carrying \<open>p\<close> and the captured stack (after the remote address when the
  connection is non-nil). The log call is followed by what \<open>finishTracer\<close> adds: when the
  stats expose a mutable view, the recording of \<open>p\<close>, one run of the finish hooks and the
  reset, so that the tracer is finished exactly once, carrying the payload; when they expose
  none (lines 197-200), nothing: the payload is not recorded and no finish hook runs.
\<close>

theorem endpoint_panic_contained:
  assumes ok: "snd (fst (handshake t tr s)) = None"
    and sm: "sm = methodPath (Method s)"
    and pos: "pos = LastIndex sm ''/''" "pos \<noteq> - 1"
    and idx: "idx = LastIndex (take (nat pos) sm) ''.''" "idx \<noteq> - 1"
    and panic: "inkHdlFunc t (tracedCtx t tr s)
                  \<lparr>PackageName = take (nat idx) sm,
                   ServiceName = take (nat pos - nat (idx + 1)) (drop (nat (idx + 1)) sm),
                   MethodName = drop (nat (pos + 1)) sm\<rparr> = Panic p"
    and args: "args = (case conn of Some c \<Rightarrow> [Addr (RemoteAddr c)] | None \<Rightarrow> [])
                        @ [Payload p, Text (Stack rt)]"
  shows "statuses (trace (OnRead_stream rt t conn tr s)) = []
     \<and> panicsLogged (trace (OnRead_stream rt t conn tr s)) = [args]
     \<and> invocations (trace (OnRead_stream rt t conn tr s)) = [tracedCtx t tr s]
     \<and> (\<exists>pre f. trace (OnRead_stream rt t conn tr s)
                 = pre @ [Errorf f args]
                     @ (if MutableStats (callInfo t tr s)
                        then [SetPanicked p, DoFinish (tracedCtx t tr s) None, Reset] else [])
               \<and> finishes pre = [] \<and> panicsLogged pre = [])
     \<and> (MutableStats (callInfo t tr s) \<longrightarrow>
          finishes (trace (OnRead_stream rt t conn tr s)) = [(tracedCtx t tr s, None)])
     \<and> (\<not> MutableStats (callInfo t tr s) \<longrightarrow>
          finishes (trace (OnRead_stream rt t conn tr s)) = []
          \<and> SetPanicked p \<notin> set (trace (OnRead_stream rt t conn tr s))
          \<and> (\<exists>f. last (trace (OnRead_stream rt t conn tr s)) = Errorf f args))"
proof -
  note r = stream_resolved [OF ok sm pos idx refl]
  let ?B = "emit (Invoke (tracedCtx t tr s))
               (setServiceName (take (nat pos - nat (idx + 1)) (drop (nat (idx + 1)) sm))
                  (setPackageName (take (nat idx) sm)
                     (setMethodName (drop (nat (pos + 1)) sm)
                        (emit (DoStart (fst (fst (handshake t tr s)))) (snd (handshake t tr s))))))"
  let ?f = "case conn of
              Some c \<Rightarrow> ''KITEX: panic happened, close conn[%s], %v'' @ [CHR 0x0A] @ ''%s''
            | None \<Rightarrow> ''KITEX: panic happened, %v'' @ [CHR 0x0A] @ ''%s''"
  let ?R' = "emit (Errorf ?f args) ?B"
  have R: "OnRead_stream rt t conn tr s
      = finishTracer (tracedCtx t tr s) (callInfo t tr s) None (Some p) ?R'"
    unfolding r(6) by (simp add: r(1) panic args)
  have f: "finishes (trace ?R') = []"
    using r(4) by (simp add: emit_readers readers_append)
  have 1: "statuses (trace (OnRead_stream rt t conn tr s)) = []"
    unfolding R using r(2) by (simp add: finishTracer_readers emit_readers readers_append)
  have 2: "panicsLogged (trace (OnRead_stream rt t conn tr s)) = [args]"
    unfolding R using r(5) by (simp add: finishTracer_readers emit_readers readers_append)
  have 3: "invocations (trace (OnRead_stream rt t conn tr s)) = [tracedCtx t tr s]"
    unfolding R using r(3) by (simp add: finishTracer_readers emit_readers readers_append)
  have tr: "trace (OnRead_stream rt t conn tr s)
      = trace ?B @ [Errorf ?f args]
          @ (if MutableStats (callInfo t tr s)
             then [SetPanicked p, DoFinish (tracedCtx t tr s) None, Reset] else [])"
    unfolding R by (simp add: finishTracer_def emit_def Let_def)
  have 4: "\<exists>pre f. trace (OnRead_stream rt t conn tr s)
                 = pre @ [Errorf f args]
                     @ (if MutableStats (callInfo t tr s)
                        then [SetPanicked p, DoFinish (tracedCtx t tr s) None, Reset] else [])
               \<and> finishes pre = [] \<and> panicsLogged pre = []"
    using tr r(4,5) by blast
  have 5: "MutableStats (callInfo t tr s) \<longrightarrow>
          finishes (trace (OnRead_stream rt t conn tr s)) = [(tracedCtx t tr s, None)]"
    unfolding R using f by (simp add: finishTracer_readers)
  have noSP: "SetPanicked p \<notin> set (trace ?B)"
    by (auto simp: emit_def setMethodName_def setPackageName_def setServiceName_def
          dest!: handshake_no_SetPanicked)
  have 6: "\<not> MutableStats (callInfo t tr s) \<longrightarrow>
          finishes (trace (OnRead_stream rt t conn tr s)) = []
          \<and> SetPanicked p \<notin> set (trace (OnRead_stream rt t conn tr s))
          \<and> (\<exists>f. last (trace (OnRead_stream rt t conn tr s)) = Errorf f args)"
  proof
    assume n: "\<not> MutableStats (callInfo t tr s)"
    have a: "finishes (trace (OnRead_stream rt t conn tr s)) = []"
      unfolding R using f n by (simp add: finishTracer_nil)
    have b: "SetPanicked p \<notin> set (trace (OnRead_stream rt t conn tr s))"
      unfolding R using noSP n by (simp add: finishTracer_nil emit_readers)
    have c: "last (trace (OnRead_stream rt t conn tr s)) = Errorf ?f args"
      unfolding R using n by (simp add: finishTracer_nil emit_readers)
    from a b c show "finishes (trace (OnRead_stream rt t conn tr s)) = []
          \<and> SetPanicked p \<notin> set (trace (OnRead_stream rt t conn tr s))
          \<and> (\<exists>f. last (trace (OnRead_stream rt t conn tr s)) = Errorf f args)"
      by blast
  qed
  from 1 2 3 4 5 6 show ?thesis by (intro conjI)
qed

text \<open>
  C3, as the code has it. When the handlers succeed, the method resolves and the endpoint
  returns \<open>r\<close>: exactly one status is written, \<open>New OK []\<close> for a nil error and the
  translation of the error otherwise, whose message is the error's text. The status write is
  followed by what \<open>finishTracer\<close> adds: when the stats expose a mutable view, one run of
  the finish hooks and the reset, so that the finish hook runs exactly once, after the write;
  when they expose none (lines 197-200), nothing, so that no finish hook runs at all.
\<close>

theorem normal_return_one_status_then_finish:
  assumes ok: "snd (fst (handshake t tr s)) = None"
    and sm: "sm = methodPath (Method s)"
    and pos: "pos = LastIndex sm ''/''" "pos \<noteq> - 1"
    and idx: "idx = LastIndex (take (nat pos) sm) ''.''" "idx \<noteq> - 1"
    and ret: "inkHdlFunc t (tracedCtx t tr s)
                  \<lparr>PackageName = take (nat idx) sm,
                   ServiceName = take (nat pos - nat (idx + 1)) (drop (nat (idx + 1)) sm),
                   MethodName = drop (nat (pos + 1)) sm\<rparr> = Return r"
    and st: "st = (case r of None \<Rightarrow> New OK [] | Some err \<Rightarrow> convertFromKitexToGrpc rt err)"
  shows "statuses (trace (OnRead_stream rt t conn tr s)) = [st]
     \<and> (r = None \<longrightarrow> st = New OK [])
     \<and> (\<forall>err. r = Some err \<longrightarrow> st = convertFromKitexToGrpc rt err \<and> Message st = ErrorText rt err)
     \<and> invocations (trace (OnRead_stream rt t conn tr s)) = [tracedCtx t tr s]
     \<and> (\<exists>pre. trace (OnRead_stream rt t conn tr s)
                 = pre @ [WriteStatus st]
                     @ (if MutableStats (callInfo t tr s)
                        then [DoFinish (tracedCtx t tr s) None, Reset] else [])
               \<and> statuses pre = [] \<and> finishes pre = [])
     \<and> (MutableStats (callInfo t tr s) \<longrightarrow>
          finishes (trace (OnRead_stream rt t conn tr s)) = [(tracedCtx t tr s, None)])
     \<and> (\<not> MutableStats (callInfo t tr s) \<longrightarrow>
          finishes (trace (OnRead_stream rt t conn tr s)) = []
          \<and> last (trace (OnRead_stream rt t conn tr s)) = WriteStatus st)"
proof -
  note r = stream_resolved [OF ok sm pos idx refl]
  let ?B = "emit (Invoke (tracedCtx t tr s))
               (setServiceName (take (nat pos - nat (idx + 1)) (drop (nat (idx + 1)) sm))
                  (setPackageName (take (nat idx) sm)
                     (setMethodName (drop (nat (pos + 1)) sm)
                        (emit (DoStart (fst (fst (handshake t tr s)))) (snd (handshake t tr s))))))"
  let ?R' = "emit (WriteStatus st) ?B"
  have R: "OnRead_stream rt t conn tr s
      = finishTracer (tracedCtx t tr s) (callInfo t tr s) None None ?R'"
    unfolding r(6) by (simp add: r(1) ret st)
  have f: "finishes (trace ?R') = []"
    using r(4) by (simp add: emit_readers readers_append)
  have 1: "statuses (trace (OnRead_stream rt t conn tr s)) = [st]"
    unfolding R using r(2) by (simp add: finishTracer_readers emit_readers readers_append)
  have 2: "r = None \<longrightarrow> st = New OK []" by (simp add: st)
  have 3: "\<forall>err. r = Some err \<longrightarrow> st = convertFromKitexToGrpc rt err \<and> Message st = ErrorText rt err"
    by (simp add: st convertFromKitexToGrpc_def)
  have 4: "invocations (trace (OnRead_stream rt t conn tr s)) = [tracedCtx t tr s]"
    unfolding R using r(3) by (simp add: finishTracer_readers emit_readers readers_append)
  have tr: "trace (OnRead_stream rt t conn tr s)
      = trace ?B @ [WriteStatus st]
          @ (if MutableStats (callInfo t tr s)
             then [DoFinish (tracedCtx t tr s) None, Reset] else [])"
    unfolding R by (simp add: finishTracer_def emit_def Let_def)
  have 5: "\<exists>pre. trace (OnRead_stream rt t conn tr s)
                 = pre @ [WriteStatus st]
                     @ (if MutableStats (callInfo t tr s)
                        then [DoFinish (tracedCtx t tr s) None, Reset] else [])
               \<and> statuses pre = [] \<and> finishes pre = []"
    using tr r(2,4) by blast
  have 6: "MutableStats (callInfo t tr s) \<longrightarrow>
          finishes (trace (OnRead_stream rt t conn tr s)) = [(tracedCtx t tr s, None)]"
    unfolding R using f by (simp add: finishTracer_readers)
  have 7: "\<not> MutableStats (callInfo t tr s) \<longrightarrow>
          finishes (trace (OnRead_stream rt t conn tr s)) = []
          \<and> last (trace (OnRead_stream rt t conn tr s)) = WriteStatus st"
    unfolding R using f by (simp add: finishTracer_nil emit_readers)
  from 1 2 3 4 5 6 7 show ?thesis by (intro conjI)
qed

text \<open>
  C4. For a method string \<open>pkg.Service/Method\<close> with or without one leading \<open>/\<close>, where
  the method segment has no \<open>/\<close>, the service segment has no \<open>.\<close> and the package does
  not itself begin with \<open>/\<close>, the invocation record ends as the triple
  \<open>(pkg, Service, Method)\<close>, the same for both forms: the path after the optional leading
  separator is the same string, it is cut at its last \<open>/\<close>, and the part before that at its
  last \<open>.\<close>.
\<close>

theorem method_name_resolution:
  assumes ok: "snd (fst (handshake t tr s)) = None"
    and m: "CHR ''/'' \<notin> set m"
    and svc: "CHR ''.'' \<notin> set svc"
    and pkg: "take 1 pkg \<noteq> ''/''"
    and lead: "lead = [] \<or> lead = ''/''"
    and raw: "Method s = lead @ pkg @ ''.'' @ svc @ ''/'' @ m"
  shows "ink (OnRead_stream rt t conn tr s)
       = \<lparr>PackageName = pkg, ServiceName = svc, MethodName = m\<rparr>
     \<and> methodPath (Method s) = pkg @ ''.'' @ svc @ ''/'' @ m
     \<and> LastIndex (methodPath (Method s)) ''/'' = int (length (pkg @ ''.'' @ svc))
     \<and> LastIndex (pkg @ ''.'' @ svc) ''.'' = int (length pkg)"
proof -
  let ?sm = "pkg @ ''.'' @ svc @ ''/'' @ m"
  have sm: "?sm = methodPath (Method s)"
  proof (cases "lead = []")
    case True
    with pkg show ?thesis by (cases pkg) (auto simp: raw methodPath_def)
  next
    case False
    with lead have "lead = ''/''" by simp
    then show ?thesis by (simp add: raw methodPath_def)
  qed
  have "LastIndex ((pkg @ ''.'' @ svc) @ CHR ''/'' # m) [CHR ''/''] = int (length (pkg @ ''.'' @ svc))"
    by (rule LastIndex_last_occurrence [OF m])
  then have pos: "LastIndex ?sm ''/'' = int (length (pkg @ ''.'' @ svc))" by simp
  have suc: "\<And>n. nat (int n + 1) = Suc n" by simp
  have q: "take (nat (int (length (pkg @ ''.'' @ svc)))) ?sm = pkg @ ''.'' @ svc"
    by (simp only: nat_int) simp
  have "LastIndex (pkg @ CHR ''.'' # svc) [CHR ''.''] = int (length pkg)"
    by (rule LastIndex_last_occurrence [OF svc])
  then have idx: "LastIndex (pkg @ ''.'' @ svc) ''.'' = int (length pkg)" by simp
  have pne: "int (length (pkg @ ''.'' @ svc)) \<noteq> - 1" by simp
  have ine: "int (length pkg) \<noteq> - 1" by simp
  have r: "ink (OnRead_stream rt t conn tr s)
       = \<lparr>PackageName = take (nat (int (length pkg))) ?sm,
          ServiceName = take (nat (int (length (pkg @ ''.'' @ svc))) - nat (int (length pkg) + 1))
                          (drop (nat (int (length pkg) + 1)) ?sm),
          MethodName = drop (nat (int (length (pkg @ ''.'' @ svc)) + 1)) ?sm\<rparr>"
  proof -
    have pos': "int (length (pkg @ ''.'' @ svc)) = LastIndex ?sm ''/''" by (simp only: pos)
    have idx': "int (length pkg)
        = LastIndex (take (nat (int (length (pkg @ ''.'' @ svc)))) ?sm) ''.''"
      by (simp only: q idx)
    note r = stream_resolved [OF ok sm pos' pne idx' ine refl]
    show ?thesis
      unfolding r(6) using r(1)
      by (simp only: finishTracer_readers emit_readers split: outcome.splits) simp
  qed
  have a: "take (nat (int (length pkg))) ?sm = pkg" by (simp only: nat_int) simp
  have b: "take (nat (int (length (pkg @ ''.'' @ svc))) - nat (int (length pkg) + 1))
             (drop (nat (int (length pkg) + 1)) ?sm) = svc"
    by (simp only: nat_int suc) simp
  have c: "drop (nat (int (length (pkg @ ''.'' @ svc)) + 1)) ?sm = m"
    by (simp only: suc) simp
  have 1: "ink (OnRead_stream rt t conn tr s)
       = \<lparr>PackageName = pkg, ServiceName = svc, MethodName = m\<rparr>"
    using r unfolding a b c .
  from 1 sm [symmetric] pos [unfolded sm] idx show ?thesis by (intro conjI)
qed


section \<open>Concrete runs\<close>

lemmas example_defs = exampleHandler_def nilStatsHandler_def exampleRuntime_def exampleConn_def pass_def deny_def
  OnRead_stream_def handshake_def initCall_def startTracer_def deferred_def finishTracer_def
  resolveAndInvoke_def methodPath_def goSlice_def LastIndex_def emit_def
  setMethodName_def setPackageName_def setServiceName_def convertFromKitexToGrpc_def
  callInfo_def tracedCtx_def Let_def

theorem handshake_failure_short_circuits_witness:
  "snd (fst (handshake (exampleHandler [pass, deny, pass] (\<lambda>c i. Return None)) ''peer''
                \<lparr>Method = ''/echo.EchoService/Echo'', Context = 0\<rparr>)) = Some ''denied''
   \<and> trace (OnRead_stream exampleRuntime (exampleHandler [pass, deny, pass] (\<lambda>c i. Return None))
               exampleConn ''peer'' \<lparr>Method = ''/echo.EchoService/Echo'', Context = 0\<rparr>)
       = [SetTransportProtocol GRPC, OnReadStream 0 0, OnReadStream 1 1,
          WriteStatus (New (OtherCode 13) ''denied'')]
   \<and> statuses (trace (OnRead_stream exampleRuntime (exampleHandler [pass, deny, pass] (\<lambda>c i. Return None))
               exampleConn ''peer'' \<lparr>Method = ''/echo.EchoService/Echo'', Context = 0\<rparr>))
       = [New (OtherCode 13) ''denied'']"
proof -
  have h: "snd (fst (handshake (exampleHandler [pass, deny, pass] (\<lambda>c i. Return None)) ''peer''
                \<lparr>Method = ''/echo.EchoService/Echo'', Context = 0\<rparr>)) = Some ''denied''"
    by (simp add: example_defs)
  show ?thesis
    using h handshake_failure_short_circuits [OF h, of exampleRuntime exampleConn]
    by (simp add: example_defs)
qed

theorem finish_after_failed_handshake_counterexample:
  "snd (fst (handshake (exampleHandler [pass, deny, pass] (\<lambda>c i. Return None)) ''peer''
                \<lparr>Method = ''/echo.EchoService/Echo'', Context = 0\<rparr>)) = Some ''denied''
   \<and> MutableStats (callInfo (exampleHandler [pass, deny, pass] (\<lambda>c i. Return None)) ''peer''
                \<lparr>Method = ''/echo.EchoService/Echo'', Context = 0\<rparr>)
   \<and> length (finishes (trace (OnRead_stream exampleRuntime
               (exampleHandler [pass, deny, pass] (\<lambda>c i. Return None))
               exampleConn ''peer'' \<lparr>Method = ''/echo.EchoService/Echo'', Context = 0\<rparr>))) \<noteq> 1"
  by (simp add: example_defs)

theorem endpoint_panic_contained_witness:
  "snd (fst (handshake (exampleHandler [pass, pass] (\<lambda>c i. Panic ''boom'')) ''peer''
                \<lparr>Method = ''/echo.EchoService/Echo'', Context = 0\<rparr>)) = None
   \<and> snd (fst (handshake (nilStatsHandler [pass, pass] (\<lambda>c i. Panic ''boom'')) ''peer''
                \<lparr>Method = ''/echo.EchoService/Echo'', Context = 0\<rparr>)) = None
   \<and> LastIndex (methodPath ''/echo.EchoService/Echo'') ''/'' = 16
   \<and> LastIndex (take 16 (methodPath ''/echo.EchoService/Echo'')) ''.'' = 4
   \<and> MutableStats (callInfo (exampleHandler [pass, pass] (\<lambda>c i. Panic ''boom'')) ''peer''
                \<lparr>Method = ''/echo.EchoService/Echo'', Context = 0\<rparr>)
   \<and> \<not> MutableStats (callInfo (nilStatsHandler [pass, pass] (\<lambda>c i. Panic ''boom'')) ''peer''
                \<lparr>Method = ''/echo.EchoService/Echo'', Context = 0\<rparr>)
   \<and> trace (OnRead_stream exampleRuntime (exampleHandler [pass, pass] (\<lambda>c i. Panic ''boom''))
               exampleConn ''peer'' \<lparr>Method = ''/echo.EchoService/Echo'', Context = 0\<rparr>)
       = [SetTransportProtocol GRPC, OnReadStream 0 0, OnReadStream 1 1, DoStart 2,
          SetMethodName ''Echo'', SetPackageName ''echo'', SetServiceName ''EchoService'',
          Invoke 102,
          Errorf (''KITEX: panic happened, close conn[%s], %v'' @ [CHR 0x0A] @ ''%s'')
            [Addr ''10.0.0.1:8888'', Payload ''boom'', Text ''goroutine 7 [running]''],
          SetPanicked ''boom'', DoFinish 102 None, Reset]
   \<and> trace (OnRead_stream exampleRuntime (nilStatsHandler [pass, pass] (\<lambda>c i. Panic ''boom''))
               exampleConn ''peer'' \<lparr>Method = ''/echo.EchoService/Echo'', Context = 0\<rparr>)
       = [SetTransportProtocol GRPC, OnReadStream 0 0, OnReadStream 1 1, DoStart 2,
          SetMethodName ''Echo'', SetPackageName ''echo'', SetServiceName ''EchoService'',
          Invoke 102,
          Errorf (''KITEX: panic happened, close conn[%s], %v'' @ [CHR 0x0A] @ ''%s'')
            [Addr ''10.0.0.1:8888'', Payload ''boom'', Text ''goroutine 7 [running]'']]
   \<and> statuses (trace (OnRead_stream exampleRuntime (exampleHandler [pass, pass] (\<lambda>c i. Panic ''boom''))
               exampleConn ''peer'' \<lparr>Method = ''/echo.EchoService/Echo'', Context = 0\<rparr>)) = []"
proof -
  let ?t = "exampleHandler [pass, pass] (\<lambda>c i. Panic ''boom'')"
  let ?u = "nilStatsHandler [pass, pass] (\<lambda>c i. Panic ''boom'')"
  let ?s = "\<lparr>Method = ''/echo.EchoService/Echo'', Context = 0::nat\<rparr>"
  have ok: "snd (fst (handshake ?t ''peer'' ?s)) = None" by (simp add: example_defs)
  have ok': "snd (fst (handshake ?u ''peer'' ?s)) = None" by (simp add: example_defs)
  have pos: "LastIndex (methodPath (Method ?s)) ''/'' = 16" by (simp add: example_defs)
  have idx: "LastIndex (take (nat 16) (methodPath (Method ?s))) ''.'' = 4"
    by (simp add: example_defs)
  have mut: "MutableStats (callInfo ?t ''peer'' ?s)" by (simp add: example_defs)
  have nil: "\<not> MutableStats (callInfo ?u ''peer'' ?s)" by (simp add: example_defs)
  have panic: "inkHdlFunc ?t (tracedCtx ?t ''peer'' ?s)
                  \<lparr>PackageName = take (nat 4) (methodPath (Method ?s)),
                   ServiceName = take (nat 16 - nat (4 + 1)) (drop (nat (4 + 1)) (methodPath (Method ?s))),
                   MethodName = drop (nat (16 + 1)) (methodPath (Method ?s))\<rparr> = Panic ''boom''"
    by (simp add: exampleHandler_def)
  have panic': "inkHdlFunc ?u (tracedCtx ?u ''peer'' ?s)
                  \<lparr>PackageName = take (nat 4) (methodPath (Method ?s)),
                   ServiceName = take (nat 16 - nat (4 + 1)) (drop (nat (4 + 1)) (methodPath (Method ?s))),
                   MethodName = drop (nat (16 + 1)) (methodPath (Method ?s))\<rparr> = Panic ''boom''"
    by (simp add: nilStatsHandler_def)
  show ?thesis
    using ok ok' pos idx mut nil
      endpoint_panic_contained [OF ok refl pos [symmetric] _ idx [symmetric] _ panic refl,
        where rt = exampleRuntime and conn = exampleConn]
      endpoint_panic_contained [OF ok' refl pos [symmetric] _ idx [symmetric] _ panic' refl,
        where rt = exampleRuntime and conn = exampleConn]
    by (simp add: example_defs)
qed

theorem finish_after_panic_counterexample:
  "snd (fst (handshake (nilStatsHandler [pass, pass] (\<lambda>c i. Panic ''boom'')) ''peer''
                \<lparr>Method = ''/echo.EchoService/Echo'', Context = 0\<rparr>)) = None
   \<and> invocations (trace (OnRead_stream exampleRuntime
               (nilStatsHandler [pass, pass] (\<lambda>c i. Panic ''boom''))
               exampleConn ''peer'' \<lparr>Method = ''/echo.EchoService/Echo'', Context = 0\<rparr>)) = [102]
   \<and> inkHdlFunc (nilStatsHandler [pass, pass] (\<lambda>c i. Panic ''boom'')) 102
         \<lparr>PackageName = ''echo'', ServiceName = ''EchoService'', MethodName = ''Echo''\<rparr>
       = Panic ''boom''
   \<and> starts (trace (OnRead_stream exampleRuntime
               (nilStatsHandler [pass, pass] (\<lambda>c i. Panic ''boom''))
               exampleConn ''peer'' \<lparr>Method = ''/echo.EchoService/Echo'', Context = 0\<rparr>)) = [2]
   \<and> length (finishes (trace (OnRead_stream exampleRuntime
               (nilStatsHandler [pass, pass] (\<lambda>c i. Panic ''boom''))
               exampleConn ''peer'' \<lparr>Method = ''/echo.EchoService/Echo'', Context = 0\<rparr>))) \<noteq> 1
   \<and> SetPanicked ''boom'' \<notin> set (trace (OnRead_stream exampleRuntime
               (nilStatsHandler [pass, pass] (\<lambda>c i. Panic ''boom''))
               exampleConn ''peer'' \<lparr>Method = ''/echo.EchoService/Echo'', Context = 0\<rparr>))"
  by (simp add: example_defs)

theorem normal_return_one_status_then_finish_witness:
  "snd (fst (handshake (exampleHandler [pass, pass] (\<lambda>c i. Return None)) ''peer''
                \<lparr>Method = ''/echo.EchoService/Echo'', Context = 0\<rparr>)) = None
   \<and> LastIndex (methodPath ''/echo.EchoService/Echo'') ''/'' = 16
   \<and> LastIndex (take 16 (methodPath ''/echo.EchoService/Echo'')) ''.'' = 4
   \<and> MutableStats (callInfo (exampleHandler [pass, pass] (\<lambda>c i. Return None)) ''peer''
                \<lparr>Method = ''/echo.EchoService/Echo'', Context = 0\<rparr>)
   \<and> \<not> MutableStats (callInfo (nilStatsHandler [pass, pass] (\<lambda>c i. Return (Some ''no seats''))) ''peer''
                \<lparr>Method = ''/echo.EchoService/Echo'', Context = 0\<rparr>)
   \<and> trace (OnRead_stream exampleRuntime (exampleHandler [pass, pass] (\<lambda>c i. Return None))
               exampleConn ''peer'' \<lparr>Method = ''/echo.EchoService/Echo'', Context = 0\<rparr>)
       = [SetTransportProtocol GRPC, OnReadStream 0 0, OnReadStream 1 1, DoStart 2,
          SetMethodName ''Echo'', SetPackageName ''echo'', SetServiceName ''EchoService'',
          Invoke 102, WriteStatus (New OK []), DoFinish 102 None, Reset]
   \<and> trace (OnRead_stream exampleRuntime (exampleHandler [pass, pass] (\<lambda>c i. Return (Some ''no seats'')))
               exampleConn ''peer'' \<lparr>Method = ''/echo.EchoService/Echo'', Context = 0\<rparr>)
       = [SetTransportProtocol GRPC, OnReadStream 0 0, OnReadStream 1 1, DoStart 2,
          SetMethodName ''Echo'', SetPackageName ''echo'', SetServiceName ''EchoService'',
          Invoke 102, WriteStatus (New (OtherCode 13) ''no seats''), DoFinish 102 None, Reset]
   \<and> trace (OnRead_stream exampleRuntime (nilStatsHandler [pass, pass] (\<lambda>c i. Return (Some ''no seats'')))
               exampleConn ''peer'' \<lparr>Method = ''/echo.EchoService/Echo'', Context = 0\<rparr>)
       = [SetTransportProtocol GRPC, OnReadStream 0 0, OnReadStream 1 1, DoStart 2,
          SetMethodName ''Echo'', SetPackageName ''echo'', SetServiceName ''EchoService'',
          Invoke 102, WriteStatus (New (OtherCode 13) ''no seats'')]"
proof -
  let ?t = "exampleHandler [pass, pass] (\<lambda>c i. Return None)"
  let ?u = "exampleHandler [pass, pass] (\<lambda>c i. Return (Some ''no seats''))"
  let ?v = "nilStatsHandler [pass, pass] (\<lambda>c i. Return (Some ''no seats''))"
  let ?s = "\<lparr>Method = ''/echo.EchoService/Echo'', Context = 0::nat\<rparr>"
  have ok: "snd (fst (handshake ?t ''peer'' ?s)) = None" by (simp add: example_defs)
  have ok': "snd (fst (handshake ?u ''peer'' ?s)) = None" by (simp add: example_defs)
  have ok'': "snd (fst (handshake ?v ''peer'' ?s)) = None" by (simp add: example_defs)
  have pos: "LastIndex (methodPath (Method ?s)) ''/'' = 16" by (simp add: example_defs)
  have idx: "LastIndex (take (nat 16) (methodPath (Method ?s))) ''.'' = 4"
    by (simp add: example_defs)
  have mut: "MutableStats (callInfo ?t ''peer'' ?s)" by (simp add: example_defs)
  have nil: "\<not> MutableStats (callInfo ?v ''peer'' ?s)" by (simp add: example_defs)
  have ret: "inkHdlFunc ?t (tracedCtx ?t ''peer'' ?s)
                  \<lparr>PackageName = take (nat 4) (methodPath (Method ?s)),
                   ServiceName = take (nat 16 - nat (4 + 1)) (drop (nat (4 + 1)) (methodPath (Method ?s))),
                   MethodName = drop (nat (16 + 1)) (methodPath (Method ?s))\<rparr> = Return None"
    by (simp add: exampleHandler_def)
  have ret': "inkHdlFunc ?u (tracedCtx ?u ''peer'' ?s)
                  \<lparr>PackageName = take (nat 4) (methodPath (Method ?s)),
                   ServiceName = take (nat 16 - nat (4 + 1)) (drop (nat (4 + 1)) (methodPath (Method ?s))),
                   MethodName = drop (nat (16 + 1)) (methodPath (Method ?s))\<rparr>
                = Return (Some ''no seats'')"
    by (simp add: exampleHandler_def)
  have ret'': "inkHdlFunc ?v (tracedCtx ?v ''peer'' ?s)
                  \<lparr>PackageName = take (nat 4) (methodPath (Method ?s)),
                   ServiceName = take (nat 16 - nat (4 + 1)) (drop (nat (4 + 1)) (methodPath (Method ?s))),
                   MethodName = drop (nat (16 + 1)) (methodPath (Method ?s))\<rparr>
                = Return (Some ''no seats'')"
    by (simp add: nilStatsHandler_def)
  show ?thesis
    using ok pos idx mut nil
      normal_return_one_status_then_finish [OF ok refl pos [symmetric] _ idx [symmetric] _ ret refl,
        where rt = exampleRuntime and conn = exampleConn]
      normal_return_one_status_then_finish [OF ok' refl pos [symmetric] _ idx [symmetric] _ ret' refl,
        where rt = exampleRuntime and conn = exampleConn]
      normal_return_one_status_then_finish [OF ok'' refl pos [symmetric] _ idx [symmetric] _ ret'' refl,
        where rt = exampleRuntime and conn = exampleConn]
    by (simp add: example_defs)
qed

theorem finish_after_normal_return_counterexample:
  "snd (fst (handshake (nilStatsHandler [pass, pass] (\<lambda>c i. Return None)) ''peer''
                \<lparr>Method = ''/echo.EchoService/Echo'', Context = 0\<rparr>)) = None
   \<and> inkHdlFunc (nilStatsHandler [pass, pass] (\<lambda>c i. Return None)) 102
         \<lparr>PackageName = ''echo'', ServiceName = ''EchoService'', MethodName = ''Echo''\<rparr>
       = Return None
   \<and> trace (OnRead_stream exampleRuntime (nilStatsHandler [pass, pass] (\<lambda>c i. Return None))
               exampleConn ''peer'' \<lparr>Method = ''/echo.EchoService/Echo'', Context = 0\<rparr>)
       = [SetTransportProtocol GRPC, OnReadStream 0 0, OnReadStream 1 1, DoStart 2,
          SetMethodName ''Echo'', SetPackageName ''echo'', SetServiceName ''EchoService'',
          Invoke 102, WriteStatus (New OK [])]
   \<and> length (finishes (trace (OnRead_stream exampleRuntime
               (nilStatsHandler [pass, pass] (\<lambda>c i. Return None))
               exampleConn ''peer'' \<lparr>Method = ''/echo.EchoService/Echo'', Context = 0\<rparr>))) \<noteq> 1"
  by (simp add: example_defs)

theorem method_name_resolution_witness:
  "snd (fst (handshake (exampleHandler [pass] (\<lambda>c i. Return None)) ''peer''
                \<lparr>Method = ''/echo.EchoService/Echo'', Context = 0\<rparr>)) = None
   \<and> snd (fst (handshake (exampleHandler [pass] (\<lambda>c i. Return None)) ''peer''
                \<lparr>Method = ''echo.EchoService/Echo'', Context = 0\<rparr>)) = None
   \<and> CHR ''/'' \<notin> set ''Echo'' \<and> CHR ''.'' \<notin> set ''EchoService'' \<and> take 1 ''echo'' \<noteq> ''/''
   \<and> ink (OnRead_stream exampleRuntime (exampleHandler [pass] (\<lambda>c i. Return None))
               exampleConn ''peer'' \<lparr>Method = ''/echo.EchoService/Echo'', Context = 0\<rparr>)
       = \<lparr>PackageName = ''echo'', ServiceName = ''EchoService'', MethodName = ''Echo''\<rparr>
   \<and> ink (OnRead_stream exampleRuntime (exampleHandler [pass] (\<lambda>c i. Return None))
               exampleConn ''peer'' \<lparr>Method = ''echo.EchoService/Echo'', Context = 0\<rparr>)
       = \<lparr>PackageName = ''echo'', ServiceName = ''EchoService'', MethodName = ''Echo''\<rparr>"
proof -
  let ?t = "exampleHandler [pass] (\<lambda>c i. Return None)"
  let ?s = "\<lparr>Method = ''/echo.EchoService/Echo'', Context = 0::nat\<rparr>"
  let ?s' = "\<lparr>Method = ''echo.EchoService/Echo'', Context = 0::nat\<rparr>"
  have ok: "snd (fst (handshake ?t ''peer'' ?s)) = None" by (simp add: example_defs)
  have ok': "snd (fst (handshake ?t ''peer'' ?s')) = None" by (simp add: example_defs)
  have m: "CHR ''/'' \<notin> set ''Echo''" by simp
  have svc: "CHR ''.'' \<notin> set ''EchoService''" by simp
  have pkg: "take 1 ''echo'' \<noteq> ''/''" by simp
  have raw: "Method ?s = ''/'' @ ''echo'' @ ''.'' @ ''EchoService'' @ ''/'' @ ''Echo''" by simp
  have raw': "Method ?s' = [] @ ''echo'' @ ''.'' @ ''EchoService'' @ ''/'' @ ''Echo''" by simp
  have l: "''/'' = [] \<or> ''/'' = ''/''" by simp
  have l': "([] :: string) = [] \<or> [] = ''/''" by simp
  from method_name_resolution [OF ok m svc pkg l raw, of exampleRuntime exampleConn]
    method_name_resolution [OF ok' m svc pkg l' raw', of exampleRuntime exampleConn]
    ok ok' m svc pkg
  show ?thesis by (intro conjI) (erule conjunct1 | assumption)+
qed

theorem malformed_method_name_witness:
  "snd (fst (handshake (exampleHandler [pass] (\<lambda>c i. Return None)) ''peer''
                \<lparr>Method = ''BadMethod'', Context = 0\<rparr>)) = None
   \<and> CHR ''/'' \<notin> set (methodPath ''BadMethod'')
   \<and> trace (OnRead_stream exampleRuntime (exampleHandler [pass] (\<lambda>c i. Return None))
               exampleConn ''peer'' \<lparr>Method = ''BadMethod'', Context = 0\<rparr>)
       = [SetTransportProtocol GRPC, OnReadStream 0 0, DoStart 1,
          WriteStatus (New ResourceExhausted (''malformed method name: '' @ [CHR 0x22] @ ''BadMethod'' @ [CHR 0x22])),
          DoFinish 101 None, Reset]"
proof -
  let ?t = "exampleHandler [pass] (\<lambda>c i. Return None)"
  let ?s = "\<lparr>Method = ''BadMethod'', Context = 0::nat\<rparr>"
  have ok: "snd (fst (handshake ?t ''peer'' ?s)) = None" by (simp add: example_defs)
  have nosep: "CHR ''/'' \<notin> set (methodPath (Method ?s))" by (simp add: methodPath_def)
  show ?thesis
    using ok nosep malformed_method_name [OF ok nosep, of exampleRuntime exampleConn]
    by (simp add: example_defs)
qed

theorem malformed_service_name_witness:
  "snd (fst (handshake (exampleHandler [pass] (\<lambda>c i. Return None)) ''peer''
                \<lparr>Method = ''/noservice/Method'', Context = 0\<rparr>)) = None
   \<and> snd (fst (handshake (nilStatsHandler [pass] (\<lambda>c i. Return None)) ''peer''
                \<lparr>Method = ''/noservice/Method'', Context = 0\<rparr>)) = None
   \<and> LastIndex (methodPath ''/noservice/Method'') ''/'' = 9
   \<and> CHR ''.'' \<notin> set (take 9 (methodPath ''/noservice/Method''))
   \<and> MutableStats (callInfo (exampleHandler [pass] (\<lambda>c i. Return None)) ''peer''
                \<lparr>Method = ''/noservice/Method'', Context = 0\<rparr>)
   \<and> \<not> MutableStats (callInfo (nilStatsHandler [pass] (\<lambda>c i. Return None)) ''peer''
                \<lparr>Method = ''/noservice/Method'', Context = 0\<rparr>)
   \<and> trace (OnRead_stream exampleRuntime (exampleHandler [pass] (\<lambda>c i. Return None))
               exampleConn ''peer'' \<lparr>Method = ''/noservice/Method'', Context = 0\<rparr>)
       = [SetTransportProtocol GRPC, OnReadStream 0 0, DoStart 1, SetMethodName ''Method'',
          WriteStatus (New ResourceExhausted
            (''malformed package and service name: '' @ [CHR 0x22] @ ''/noservice/Method'' @ [CHR 0x22])),
          DoFinish 101 None, Reset]
   \<and> trace (OnRead_stream exampleRuntime (nilStatsHandler [pass] (\<lambda>c i. Return None))
               exampleConn ''peer'' \<lparr>Method = ''/noservice/Method'', Context = 0\<rparr>)
       = [SetTransportProtocol GRPC, OnReadStream 0 0, DoStart 1, SetMethodName ''Method'',
          WriteStatus (New ResourceExhausted
            (''malformed package and service name: '' @ [CHR 0x22] @ ''/noservice/Method'' @ [CHR 0x22]))]"
proof -
  let ?t = "exampleHandler [pass] (\<lambda>c i. Return None)"
  let ?u = "nilStatsHandler [pass] (\<lambda>c i. Return None)"
  let ?s = "\<lparr>Method = ''/noservice/Method'', Context = 0::nat\<rparr>"
  have ok: "snd (fst (handshake ?t ''peer'' ?s)) = None" by (simp add: example_defs)
  have ok': "snd (fst (handshake ?u ''peer'' ?s)) = None" by (simp add: example_defs)
  have pos: "LastIndex (methodPath (Method ?s)) ''/'' = 9" by (simp add: example_defs)
  have pne: "LastIndex (methodPath (Method ?s)) ''/'' \<noteq> - 1" unfolding pos by simp
  have nodot: "CHR ''.'' \<notin> set (take (nat (LastIndex (methodPath (Method ?s)) ''/''))
                                     (methodPath (Method ?s)))"
    unfolding pos by (simp add: methodPath_def)
  have mut: "MutableStats (callInfo ?t ''peer'' ?s)" by (simp add: example_defs)
  have nil: "\<not> MutableStats (callInfo ?u ''peer'' ?s)" by (simp add: example_defs)
  show ?thesis
    using ok ok' pos nodot mut nil
      malformed_service_name [OF ok pne nodot refl, where rt = exampleRuntime and conn = exampleConn]
      malformed_service_name [OF ok' pne nodot refl, where rt = exampleRuntime and conn = exampleConn]
    by (simp add: example_defs)
qed

theorem finish_after_malformed_service_counterexample:
  "snd (fst (handshake (nilStatsHandler [pass] (\<lambda>c i. Return None)) ''peer''
                \<lparr>Method = ''/noservice/Method'', Context = 0\<rparr>)) = None
   \<and> LastIndex (methodPath ''/noservice/Method'') ''/'' = 9
   \<and> CHR ''.'' \<notin> set (take 9 (methodPath ''/noservice/Method''))
   \<and> trace (OnRead_stream exampleRuntime (nilStatsHandler [pass] (\<lambda>c i. Return None))
               exampleConn ''peer'' \<lparr>Method = ''/noservice/Method'', Context = 0\<rparr>)
       = [SetTransportProtocol GRPC, OnReadStream 0 0, DoStart 1, SetMethodName ''Method'',
          WriteStatus (New ResourceExhausted
            (''malformed package and service name: '' @ [CHR 0x22] @ ''/noservice/Method'' @ [CHR 0x22]))]
   \<and> length (finishes (trace (OnRead_stream exampleRuntime
               (nilStatsHandler [pass] (\<lambda>c i. Return None))
               exampleConn ''peer'' \<lparr>Method = ''/noservice/Method'', Context = 0\<rparr>))) \<noteq> 1"
  by (simp add: example_defs)

theorem malformed_service_sets_method_name_witness:
  "snd (fst (handshake (exampleHandler [pass] (\<lambda>c i. Return None)) ''peer''
                \<lparr>Method = ''/noservice/Method'', Context = 0\<rparr>)) = None
   \<and> LastIndex (methodPath ''/noservice/Method'') ''/'' = 9
   \<and> LastIndex (take 9 (methodPath ''/noservice/Method'')) ''.'' = - 1
   \<and> invocation (callInfo (exampleHandler [pass] (\<lambda>c i. Return None)) ''peer''
                \<lparr>Method = ''/noservice/Method'', Context = 0\<rparr>)
       = \<lparr>PackageName = [], ServiceName = [], MethodName = []\<rparr>
   \<and> ink (OnRead_stream exampleRuntime (exampleHandler [pass] (\<lambda>c i. Return None))
               exampleConn ''peer'' \<lparr>Method = ''/noservice/Method'', Context = 0\<rparr>)
       = \<lparr>PackageName = [], ServiceName = [], MethodName = ''Method''\<rparr>
   \<and> trace (OnRead_stream exampleRuntime (exampleHandler [pass] (\<lambda>c i. Return None))
               exampleConn ''peer'' \<lparr>Method = ''/noservice/Method'', Context = 0\<rparr>)
       = [SetTransportProtocol GRPC, OnReadStream 0 0, DoStart 1, SetMethodName ''Method'',
          WriteStatus (New ResourceExhausted
            (''malformed package and service name: '' @ [CHR 0x22] @ ''/noservice/Method'' @ [CHR 0x22])),
          DoFinish 101 None, Reset]"
proof -
  let ?t = "exampleHandler [pass] (\<lambda>c i. Return None)"
  let ?s = "\<lparr>Method = ''/noservice/Method'', Context = 0::nat\<rparr>"
  have ok: "snd (fst (handshake ?t ''peer'' ?s)) = None" by (simp add: example_defs)
  have pos: "LastIndex (methodPath (Method ?s)) ''/'' = 9" by (simp add: example_defs)
  have idx: "LastIndex (take (nat 9) (methodPath (Method ?s))) ''.'' = - 1"
    by (simp add: example_defs)
  show ?thesis
    using ok pos idx
      malformed_service_sets_method_name [OF ok refl pos [symmetric] _ idx,
        of exampleRuntime exampleConn]
    by (simp add: example_defs)
qed

theorem empty_segments_pass_through_witness:
  "snd (fst (handshake (exampleHandler [pass] (\<lambda>c i. Return None)) ''peer''
                \<lparr>Method = ''./'', Context = 0\<rparr>)) = None
   \<and> LastIndex (methodPath ''./'') ''/'' = 1
   \<and> LastIndex (take 1 (methodPath ''./'')) ''.'' = 0
   \<and> ink (OnRead_stream exampleRuntime (exampleHandler [pass] (\<lambda>c i. Return None))
               exampleConn ''peer'' \<lparr>Method = ''./'', Context = 0\<rparr>)
       = \<lparr>PackageName = [], ServiceName = [], MethodName = []\<rparr>
   \<and> trace (OnRead_stream exampleRuntime (exampleHandler [pass] (\<lambda>c i. Return None))
               exampleConn ''peer'' \<lparr>Method = ''./'', Context = 0\<rparr>)
       = [SetTransportProtocol GRPC, OnReadStream 0 0, DoStart 1, SetMethodName [],
          SetPackageName [], SetServiceName [], Invoke 101, WriteStatus (New OK []),
          DoFinish 101 None, Reset]"
proof -
  let ?t = "exampleHandler [pass] (\<lambda>c i. Return None)"
  let ?s = "\<lparr>Method = ''./'', Context = 0::nat\<rparr>"
  have ok: "snd (fst (handshake ?t ''peer'' ?s)) = None" by (simp add: example_defs)
  have pos: "LastIndex (methodPath (Method ?s)) ''/'' = 1" by (simp add: example_defs)
  have idx: "LastIndex (take (nat 1) (methodPath (Method ?s))) ''.'' = 0"
    by (simp add: example_defs)
  show ?thesis
    using ok pos idx
      empty_segments_pass_through [OF ok refl pos [symmetric] _ idx [symmetric] _,
        of exampleRuntime exampleConn]
    by (simp add: example_defs)
qed

section \<open>Connection activation and the tracer bracket\<close>

text \<open>
  C7. \<open>OnActive\<close> on a netpoll connection returns that connection with its read timeout
  set to \<open>Infinity\<close>, the context it was given and a nil error; on no input does it return
  an error; and no duration is longer than \<open>Infinity\<close>.
\<close>

theorem OnActive_unbounded_read_timeout:
  "(OnActive ctx (Some (NetpollConn addr d)) :: ('c, 'e) activated)
      = Returned (NetpollConn addr Infinity) ctx None
   \<and> (\<forall>conn c ctx' e. (OnActive ctx conn :: ('c, 'e) activated) \<noteq> Returned c ctx' (Some e))
   \<and> (\<forall>d :: 64 word. sint d \<le> sint Infinity)"
proof -
  have a: "(OnActive ctx (Some (NetpollConn addr d)) :: ('c, 'e) activated)
      = Returned (NetpollConn addr Infinity) ctx None"
    by (simp add: OnActive_def)
  have b: "\<forall>conn c ctx' e. (OnActive ctx conn :: ('c, 'e) activated) \<noteq> Returned c ctx' (Some e)"
    by (auto simp: OnActive_def split: option.splits Conn.splits)
  have c: "\<forall>d :: 64 word. sint d \<le> sint Infinity"
  proof
    fix d :: "64 word"
    have "sint d < 2 ^ (LENGTH(64) - 1)" by (rule sint_lt)
    moreover have "sint Infinity = 2 ^ 63 - 1" by (simp add: Infinity_def)
    ultimately show "sint d \<le> sint Infinity" by simp
  qed
  from a b c show ?thesis by blast
qed

text \<open>
  C10. When the call's stats have no mutable view, \<open>finishTracer\<close> changes nothing: no
  finish hook runs and nothing is reset. Otherwise it appends, in this order, the recording
  of the panic payload (when there is one), the finish hooks with the error it was given,
  and the reset of the stats; the invocation record is untouched.
\<close>

theorem finishTracer_order:
  "(\<not> MutableStats ri \<longrightarrow> finishTracer ctx ri err panicErr st = st)
   \<and> (MutableStats ri \<longrightarrow>
        ink (finishTracer ctx ri err panicErr st) = ink st
        \<and> trace (finishTracer ctx ri err panicErr st)
            = trace st @ (case panicErr of None \<Rightarrow> [] | Some p \<Rightarrow> [SetPanicked p])
                @ [DoFinish ctx err, Reset])"
  by (simp add: finishTracer_def emit_def Let_def split: option.splits)

theorem finishTracer_order_witness:
  "finishTracer (1::nat) \<lparr>invocation = \<lparr>PackageName = [], ServiceName = [], MethodName = []\<rparr>, MutableStats = False\<rparr>
       (Some ''e'') (Some ''boom'') \<lparr>ink = \<lparr>PackageName = [], ServiceName = [], MethodName = []\<rparr>, trace = []\<rparr>
     = \<lparr>ink = \<lparr>PackageName = [], ServiceName = [], MethodName = []\<rparr>, trace = []\<rparr>
   \<and> trace (finishTracer (1::nat) \<lparr>invocation = \<lparr>PackageName = [], ServiceName = [], MethodName = []\<rparr>, MutableStats = True\<rparr>
       (Some ''e'') (Some ''boom'') \<lparr>ink = \<lparr>PackageName = [], ServiceName = [], MethodName = []\<rparr>, trace = []\<rparr>)
     = [SetPanicked ''boom'', DoFinish 1 (Some ''e''), Reset]"
  using finishTracer_order [of "\<lparr>invocation = \<lparr>PackageName = [], ServiceName = [], MethodName = []\<rparr>, MutableStats = False\<rparr>"
          "1::nat" "Some ''e''" "Some ''boom''" "\<lparr>ink = \<lparr>PackageName = [], ServiceName = [], MethodName = []\<rparr>, trace = []\<rparr>"]
        finishTracer_order [of "\<lparr>invocation = \<lparr>PackageName = [], ServiceName = [], MethodName = []\<rparr>, MutableStats = True\<rparr>"
          "1::nat" "Some ''e''" "Some ''boom''" "\<lparr>ink = \<lparr>PackageName = [], ServiceName = [], MethodName = []\<rparr>, trace = []\<rparr>"]
  by simp

end
